theory Spec2Isabelle
  imports Main
begin

section \<open>Raw messages and configuration\<close>

text \<open>
  The exporter reads Telethon \<^verbatim>\<open>Message\<close> objects. Only the attributes the
  pipeline reads are modelled. An attribute that may be \<^verbatim>\<open>None\<close> is an option;
  Python truthiness is written out where the code relies on it (\<^verbatim>\<open>None\<close>, the
  empty string, the empty collection and the number zero are false).
\<close>

record action =
  action_type :: string
  action_title :: "string option"
  action_message :: "string option"

record document_attribute =
  file_name :: "string option"

record document =
  doc_size :: int
  mime_type :: string
  attributes :: "document_attribute list"

datatype media =
    MessageMediaPhoto
  | MessageMediaDocument "document option"
  | MessageMediaOther

record sender =
  sender_id :: int
  username :: "string option"

record reply_header =
  reply_to_msg_id :: "int option"
  forum_topic :: bool
  reply_to_top_id :: "int option"

record reaction =
  emoticon :: "string option"

record reaction_count =
  rc_count :: "int option"
  rc_reaction :: "reaction option"

record message_reactions =
  results :: "reaction_count list option"

record raw_message =
  msg_id :: int
  date :: int
  grouped_id :: "int option"
  action :: "action option"
  message :: "string option"
  msg_text :: "string option"
  media :: "media option"
  video_note :: bool
  video :: bool
  voice :: bool
  audio :: bool
  gif :: bool
  sender :: "sender option"
  reply_to :: "reply_header option"
  reactions :: "message_reactions option"

text \<open>
  \<^verbatim>\<open>ExportConfig\<close>: the two substring sets are given by an enumeration (a list);
  the code only tests them for emptiness and iterates over them.
\<close>

record export_config =
  filter_include_substrings :: "string list"
  filter_exclude_substrings :: "string list"
  filter_case_sensitive :: bool
  skip_media_types :: "string list"
  max_file_size_mb :: int
  max_concurrent_downloads :: nat
  included_topics :: "string list"
  excluded_topics :: "string list"

section \<open>Library functions\<close>

text \<open>
  Functions of Telethon and of the Python library that the pipeline calls are parameters
  of the model: the theorems hold whatever these functions return. \<open>str_lower\<close> is
  \<^verbatim>\<open>str.lower\<close>, with the case mapping of Unicode behind it.
\<close>

record library =
  str_lower :: "string \<Rightarrow> string"
  get_display_name :: "sender \<Rightarrow> string"
  strftime_local :: "int \<Rightarrow> string"
  format_mb :: "int \<Rightarrow> string"
  path_stem :: "string \<Rightarrow> string"
  path_suffix :: "string \<Rightarrow> string"
  path_name :: "string \<Rightarrow> string"
  relpath :: "string \<Rightarrow> string"
  html_escape :: "string \<Rightarrow> string"
  os_basename :: "string \<Rightarrow> string"
  os_splitext :: "string \<Rightarrow> string \<times> string"

section \<open>Strings\<close>

text \<open>
  The lower-case form of an ASCII letter, by table; every other character is left as it
  is. The patterns of the link rewriter compare their letters with the text through it,
  and the example library below folds case with it.
\<close>

definition lower_char :: "char \<Rightarrow> char" where
  "lower_char c =
     (case map_of (zip ''ABCDEFGHIJKLMNOPQRSTUVWXYZ'' ''abcdefghijklmnopqrstuvwxyz'') c of
        Some d \<Rightarrow> d
      | None \<Rightarrow> c)"

fun starts_with :: "string \<Rightarrow> string \<Rightarrow> bool" where
  "starts_with [] s = True"
| "starts_with (p # ps) [] = False"
| "starts_with (p # ps) (c # cs) = (p = c \<and> starts_with ps cs)"

text \<open>Python's \<^verbatim>\<open>sub in s\<close> on strings: \<^verbatim>\<open>sub\<close> occurs in \<^verbatim>\<open>s\<close> as a contiguous piece.\<close>

fun py_in :: "string \<Rightarrow> string \<Rightarrow> bool" where
  "py_in sub [] = (sub = [])"
| "py_in sub (c # cs) = (starts_with sub (c # cs) \<or> py_in sub cs)"

section \<open>Content filter (services/message\_filter.py)\<close>

text \<open>
  \<^verbatim>\<open>_contains_any_substring\<close>: the loop over the substring set with its early
  return, after the guard on an empty text or an empty set.
\<close>

fun any_substring :: "library \<Rightarrow> bool \<Rightarrow> string \<Rightarrow> string list \<Rightarrow> bool" where
  "any_substring lib cs search_text [] = False"
| "any_substring lib cs search_text (substring # rest) =
     (let search_substring = (if cs then substring else str_lower lib substring)
      in if py_in search_substring search_text then True
         else any_substring lib cs search_text rest)"

definition contains_any_substring ::
  "library \<Rightarrow> export_config \<Rightarrow> string \<Rightarrow> string list \<Rightarrow> bool" where
  "contains_any_substring lib cfg txt substrings =
     (if txt = [] \<or> substrings = [] then False
      else let search_text = (if filter_case_sensitive cfg then txt else str_lower lib txt)
           in any_substring lib (filter_case_sensitive cfg) search_text substrings)"

text \<open>
  \<^verbatim>\<open>should_include_raw_message\<close>, branch by branch. \<^verbatim>\<open>not message_text\<close> holds
  for \<^verbatim>\<open>None\<close> and for the empty string.
\<close>

definition should_include_raw_message ::
  "library \<Rightarrow> export_config \<Rightarrow> raw_message \<Rightarrow> bool" where
  "should_include_raw_message lib cfg m =
     (if action m \<noteq> None then True
      else if filter_include_substrings cfg = [] \<and> filter_exclude_substrings cfg = [] then True
      else case message m of
             None \<Rightarrow> filter_include_substrings cfg = []
           | Some message_text \<Rightarrow>
               if message_text = [] then filter_include_substrings cfg = []
               else if filter_include_substrings cfg \<noteq> []
                       \<and> \<not> contains_any_substring lib cfg message_text
                             (filter_include_substrings cfg)
                    then False
               else if filter_exclude_substrings cfg \<noteq> []
                       \<and> contains_any_substring lib cfg message_text
                           (filter_exclude_substrings cfg)
                    then False
               else True)"

subsection \<open>The reference definition of section 4.2\<close>

text \<open>
  The six rules as the specification words them, over sets: a body matches a member of a
  set when the member, folded as the case sensitivity says, occurs in the folded body.
\<close>

definition fold_case :: "library \<Rightarrow> bool \<Rightarrow> string \<Rightarrow> string" where
  "fold_case lib cs s = (if cs then s else str_lower lib s)"

definition body_matches :: "library \<Rightarrow> bool \<Rightarrow> string \<Rightarrow> string set \<Rightarrow> bool" where
  "body_matches lib cs body S = (\<exists>s \<in> S. py_in (fold_case lib cs s) (fold_case lib cs body))"

definition has_body :: "raw_message \<Rightarrow> bool" where
  "has_body m = (case message m of None \<Rightarrow> False | Some b \<Rightarrow> b \<noteq> [])"

definition body_of :: "raw_message \<Rightarrow> string" where
  "body_of m = (case message m of None \<Rightarrow> [] | Some b \<Rightarrow> b)"

definition admits_spec :: "library \<Rightarrow> bool \<Rightarrow> string set \<Rightarrow> string set \<Rightarrow> raw_message \<Rightarrow> bool" where
  "admits_spec lib cs inc exc m =
     (if action m \<noteq> None then True
      else if inc = {} \<and> exc = {} then True
      else if \<not> has_body m then inc = {}
      else if inc \<noteq> {} \<and> \<not> body_matches lib cs (body_of m) inc then False
      else if exc \<noteq> {} \<and> body_matches lib cs (body_of m) exc then False
      else True)"

section \<open>Dictionaries\<close>

text \<open>
  A Python \<^verbatim>\<open>dict\<close> keeps its keys in insertion order, and the pipeline depends on
  that order when it walks \<^verbatim>\<open>.items()\<close> and \<^verbatim>\<open>.values()\<close>. It is an association
  list; \<^verbatim>\<open>d[k] = v\<close> overwrites in place or appends.
\<close>

fun dict_set :: "'k \<Rightarrow> 'v \<Rightarrow> ('k \<times> 'v) list \<Rightarrow> ('k \<times> 'v) list" where
  "dict_set k v [] = [(k, v)]"
| "dict_set k v (p # ps) = (if fst p = k then (k, v) # ps else p # dict_set k v ps)"

section \<open>Grouping and group-aware filtering (services/message\_processor.py)\<close>

text \<open>
  \<^verbatim>\<open>_group_messages\<close>: a message with a truthy \<^verbatim>\<open>grouped_id\<close> joins the list of its
  group, every other message is a single; then each group is sorted by message id
  (\<^verbatim>\<open>list.sort\<close> is stable, as \<open>sort_key\<close> is).
\<close>

definition group_append ::
  "int \<Rightarrow> raw_message \<Rightarrow> (int \<times> raw_message list) list \<Rightarrow> (int \<times> raw_message list) list" where
  "group_append g m grouped =
     (case map_of grouped g of
        None \<Rightarrow> dict_set g [m] grouped
      | Some ms \<Rightarrow> dict_set g (ms @ [m]) grouped)"

fun group_loop ::
  "raw_message list \<Rightarrow> (int \<times> raw_message list) list \<Rightarrow> raw_message list
   \<Rightarrow> (int \<times> raw_message list) list \<times> raw_message list" where
  "group_loop [] grouped singles = (grouped, singles)"
| "group_loop (m # ms) grouped singles =
     (case grouped_id m of
        Some g \<Rightarrow>
          if g \<noteq> 0 then group_loop ms (group_append g m grouped) singles
          else group_loop ms grouped (singles @ [m])
      | None \<Rightarrow> group_loop ms grouped (singles @ [m]))"

definition group_messages ::
  "raw_message list \<Rightarrow> (int \<times> raw_message list) list \<times> raw_message list" where
  "group_messages messages =
     (let (grouped, singles) = group_loop messages [] []
      in (map (\<lambda>(g, ms). (g, sort_key msg_id ms)) grouped, singles))"

text \<open>
  \<^verbatim>\<open>_filter_grouped_messages\<close>. The inner loop leaves at the first member that passes
  the filter; the outer loops carry the filtered dictionary, the filtered singles and the
  count of excluded messages.
\<close>

fun group_passes_filter :: "library \<Rightarrow> export_config \<Rightarrow> raw_message list \<Rightarrow> bool" where
  "group_passes_filter lib cfg [] = False"
| "group_passes_filter lib cfg (m # ms) =
     (if should_include_raw_message lib cfg m then True else group_passes_filter lib cfg ms)"

fun filter_groups_loop ::
  "library \<Rightarrow> export_config \<Rightarrow> (int \<times> raw_message list) list \<Rightarrow> (int \<times> raw_message list) list \<Rightarrow> nat
   \<Rightarrow> (int \<times> raw_message list) list \<times> nat" where
  "filter_groups_loop lib cfg [] filtered_grouped excluded_count = (filtered_grouped, excluded_count)"
| "filter_groups_loop lib cfg ((group_id, messages) # rest) filtered_grouped excluded_count =
     (if group_passes_filter lib cfg messages
      then filter_groups_loop lib cfg rest (dict_set group_id messages filtered_grouped) excluded_count
      else filter_groups_loop lib cfg rest filtered_grouped (excluded_count + length messages))"

fun filter_singles_loop ::
  "library \<Rightarrow> export_config \<Rightarrow> raw_message list \<Rightarrow> raw_message list \<Rightarrow> nat
   \<Rightarrow> raw_message list \<times> nat" where
  "filter_singles_loop lib cfg [] filtered_single excluded_count = (filtered_single, excluded_count)"
| "filter_singles_loop lib cfg (m # ms) filtered_single excluded_count =
     (if should_include_raw_message lib cfg m
      then filter_singles_loop lib cfg ms (filtered_single @ [m]) excluded_count
      else filter_singles_loop lib cfg ms filtered_single (excluded_count + 1))"

definition filter_grouped_messages ::
  "library \<Rightarrow> export_config \<Rightarrow> (int \<times> raw_message list) list \<Rightarrow> raw_message list
   \<Rightarrow> (int \<times> raw_message list) list \<times> raw_message list \<times> nat" where
  "filter_grouped_messages lib cfg grouped_messages single_messages =
     (let (filtered_grouped, n) = filter_groups_loop lib cfg grouped_messages [] 0;
          (filtered_single, excluded_count) = filter_singles_loop lib cfg single_messages [] n
      in (filtered_grouped, filtered_single, excluded_count))"

text \<open>The number of messages in the albums no member of which passes the filter.\<close>

definition dropped_album_messages ::
  "library \<Rightarrow> export_config \<Rightarrow> (int \<times> raw_message list) list \<Rightarrow> nat" where
  "dropped_album_messages lib cfg grouped =
     sum_list (map (\<lambda>(g, ms). length ms)
       (filter (\<lambda>(g, ms). \<not> (\<exists>m \<in> set ms. should_include_raw_message lib cfg m)) grouped))"

section \<open>Example inputs\<close>

definition cfg_bug :: export_config where
  "cfg_bug = \<lparr>filter_include_substrings = [''bug''], filter_exclude_substrings = [''wontfix''],
     filter_case_sensitive = False, skip_media_types = [], max_file_size_mb = 50,
     max_concurrent_downloads = 5, included_topics = [], excluded_topics = []\<rparr>"

definition plain_message :: "int \<Rightarrow> int \<Rightarrow> string \<Rightarrow> raw_message" where
  "plain_message i d t =
     \<lparr>msg_id = i, date = d, grouped_id = None, action = None, message = Some t,
      msg_text = Some t, media = None, video_note = False, video = False, voice = False,
      audio = False, gif = False, sender = None, reply_to = None, reactions = None\<rparr>"

definition example_albums :: "(int \<times> raw_message list) list" where
  "example_albums =
     [(7, [plain_message 1 100 ''photo'', plain_message 2 100 ''a bug'']),
      (8, [plain_message 3 101 ''x'', plain_message 4 101 ''y''])]"

section \<open>Display records (models/data.py)\<close>

record reaction_data =
  rd_emoticon :: string
  rd_count :: int

text \<open>
  \<^verbatim>\<open>MessageData\<close>. The field \<open>grouped_message_ids\<close> has the default value of the
  dataclass, the empty list, when the constructor call does not give it.
\<close>

record message_data =
  md_id :: int
  md_date :: string
  md_sender :: string
  html_content :: string
  md_topic_id :: int
  is_service :: bool
  service_description :: string
  is_reply :: bool
  md_reply_to_msg_id :: "int option"
  skip_reason :: string
  md_reactions :: "reaction_data list"
  grouped_message_ids :: "int list"

record topic_data =
  td_id :: int
  title :: string
  messages :: "message_data list"

section \<open>Literals of the source\<close>

text \<open>
  The user-facing Russian literals of the source are parameters of the model.
\<close>

record texts =
  txt_unknown_sender :: string
  txt_service_descriptions :: "(string \<times> string) list"
  txt_service_fallback :: string
  txt_contains :: string
  txt_file_size :: string
  txt_topic :: string
  txt_document_icon :: string
  txt_media_icon :: string
  txt_archive :: string
  txt_empty_suffix :: string
  txt_all_filtered :: string

text \<open>\<^verbatim>\<open>str(n)\<close> for an integer.\<close>

function str_nat :: "nat \<Rightarrow> string" where
  "str_nat n =
     (if n < 10 then [''0123456789'' ! n]
      else str_nat (n div 10) @ [''0123456789'' ! (n mod 10)])"
  by pat_completeness auto
termination
  by (relation "measure id") auto

declare str_nat.simps [simp del]

definition str_int :: "int \<Rightarrow> string" where
  "str_int i = (if i < 0 then CHR ''-'' # str_nat (nat (- i)) else str_nat (nat i))"

text \<open>\<^verbatim>\<open>sep.join(parts)\<close>.\<close>

fun join :: "string \<Rightarrow> string list \<Rightarrow> string" where
  "join sep [] = []"
| "join sep [x] = x"
| "join sep (x # y # ys) = x @ sep @ join sep (y # ys)"

section \<open>Media classification (services/media\_processor.py)\<close>

datatype media_type = PHOTO | VIDEO | VIDEO_NOTE | VOICE | AUDIO | DOCUMENT | GIF

fun media_type_value :: "media_type \<Rightarrow> string" where
  "media_type_value PHOTO = ''photo''"
| "media_type_value VIDEO = ''video''"
| "media_type_value VIDEO_NOTE = ''video_note''"
| "media_type_value VOICE = ''voice''"
| "media_type_value AUDIO = ''audio''"
| "media_type_value DOCUMENT = ''document''"
| "media_type_value GIF = ''gif''"

text \<open>
  \<^verbatim>\<open>_get_media_type\<close>: a photo first, then the message attributes in the order of
  the mapping, then a plain document.
\<close>

definition get_media_type :: "raw_message \<Rightarrow> media_type option" where
  "get_media_type msg =
     (case media msg of
        None \<Rightarrow> None
      | Some md \<Rightarrow>
          if md = MessageMediaPhoto then Some PHOTO
          else if video_note msg then Some VIDEO_NOTE
          else if video msg then Some VIDEO
          else if voice msg then Some VOICE
          else if audio msg then Some AUDIO
          else if gif msg then Some GIF
          else (case md of MessageMediaDocument d \<Rightarrow> Some DOCUMENT | _ \<Rightarrow> None))"

text \<open>\<^verbatim>\<open>msg.media.document\<close> when the media has the attribute and it is not \<^verbatim>\<open>None\<close>.\<close>

definition media_document :: "raw_message \<Rightarrow> document option" where
  "media_document msg =
     (case media msg of Some (MessageMediaDocument (Some d)) \<Rightarrow> Some d | _ \<Rightarrow> None)"

definition get_file_size :: "raw_message \<Rightarrow> int" where
  "get_file_size msg = (case media_document msg of Some d \<Rightarrow> doc_size d | None \<Rightarrow> 0)"

definition exceeds_size_limit :: "export_config \<Rightarrow> raw_message \<Rightarrow> bool" where
  "exceeds_size_limit cfg msg = (get_file_size msg > max_file_size_mb cfg * 1024 * 1024)"

definition should_skip_media :: "export_config \<Rightarrow> raw_message \<Rightarrow> bool" where
  "should_skip_media cfg msg =
     (if media msg = None then True
      else case get_media_type msg of
             Some t \<Rightarrow>
               if media_type_value t \<in> set (skip_media_types cfg) then True
               else exceeds_size_limit cfg msg
           | None \<Rightarrow> exceeds_size_limit cfg msg)"

section \<open>Reference extraction (services/message\_processor.py)\<close>

definition format_sender_name :: "library \<Rightarrow> texts \<Rightarrow> sender option \<Rightarrow> string" where
  "format_sender_name lib txts snd_opt =
     (case snd_opt of
        None \<Rightarrow> txt_unknown_sender txts
      | Some s \<Rightarrow>
          (case username s of
             Some u \<Rightarrow>
               if u \<noteq> []
               then get_display_name lib s @ '' (ID: '' @ str_int (sender_id s) @ '', @'' @ u @ '')''
               else get_display_name lib s @ '' (ID: '' @ str_int (sender_id s) @ '')''
           | None \<Rightarrow> get_display_name lib s @ '' (ID: '' @ str_int (sender_id s) @ '')''))"

definition format_message_date :: "library \<Rightarrow> int \<Rightarrow> string" where
  "format_message_date lib msg_date = strftime_local lib msg_date"

definition analyze_service_message :: "texts \<Rightarrow> raw_message \<Rightarrow> bool \<times> string" where
  \<open>analyze_service_message txts msg =
     (case action msg of
        None \<Rightarrow> (False, [])
      | Some a \<Rightarrow>
          (let description =
                 (case map_of (txt_service_descriptions txts) (action_type a) of
                    Some d \<Rightarrow> d
                  | None \<Rightarrow> txt_service_fallback txts @ action_type a)
           in (True,
               if action_type a = ''MessageActionChatEditTitle'' \<and> action_title a \<noteq> None
               then description @ '': "'' @ the (action_title a) @ ''"''
               else if action_type a = ''MessageActionCustomAction'' \<and> action_message a \<noteq> None
               then description @ '': "'' @ the (action_message a) @ ''"''
               else description)))\<close>

definition get_skip_reason :: "library \<Rightarrow> texts \<Rightarrow> export_config \<Rightarrow> raw_message \<Rightarrow> string" where
  "get_skip_reason lib txts cfg msg =
     (if media msg = None then []
      else if (case get_media_type msg of
                 Some t \<Rightarrow> media_type_value t \<in> set (skip_media_types cfg)
               | None \<Rightarrow> False)
      then txt_contains txts @ media_type_value (the (get_media_type msg))
      else if exceeds_size_limit cfg msg
      then txt_file_size txts @ format_mb lib (get_file_size msg) @ ''MB > ''
             @ str_int (max_file_size_mb cfg) @ ''MB''
      else [])"

definition get_reply_info :: "raw_message \<Rightarrow> bool \<times> int option" where
  "get_reply_info msg =
     (case reply_to msg of
        None \<Rightarrow> (False, None)
      | Some r \<Rightarrow>
          (case reply_to_msg_id r of
             None \<Rightarrow> (False, None)
           | Some i \<Rightarrow>
               if i = 0 then (False, None)
               else if forum_topic r
               then (if reply_to_top_id r \<noteq> None then (True, Some i) else (False, None))
               else (True, Some i)))"

fun extract_reactions_loop :: "reaction_count list \<Rightarrow> reaction_data list \<Rightarrow> reaction_data list" where
  "extract_reactions_loop [] acc = acc"
| "extract_reactions_loop (r # rs) acc =
     (case (rc_count r, rc_reaction r) of
        (Some n, Some re) \<Rightarrow>
          (case emoticon re of
             Some e \<Rightarrow>
               if e \<noteq> [] \<and> n > 0
               then extract_reactions_loop rs (acc @ [\<lparr>rd_emoticon = e, rd_count = n\<rparr>])
               else extract_reactions_loop rs acc
           | None \<Rightarrow> extract_reactions_loop rs acc)
      | _ \<Rightarrow> extract_reactions_loop rs acc)"

definition extract_reactions :: "raw_message \<Rightarrow> reaction_data list" where
  "extract_reactions msg =
     (case reactions msg of
        None \<Rightarrow> []
      | Some r \<Rightarrow> (case results r of None \<Rightarrow> [] | Some rs \<Rightarrow> extract_reactions_loop rs []))"

section \<open>Text pass (services/message\_processor.py)\<close>

text \<open>
  The message renderer is injected into the processor; the text pass takes it as the
  function \<open>render\<close> from a raw message to its HTML text.
\<close>

definition ensure_topic :: "texts \<Rightarrow> int \<Rightarrow> (int \<times> topic_data) list \<Rightarrow> (int \<times> topic_data) list" where
  "ensure_topic txts topic_id topics =
     (case map_of topics topic_id of
        Some t \<Rightarrow> topics
      | None \<Rightarrow>
          dict_set topic_id
            \<lparr>td_id = topic_id, title = txt_topic txts @ str_int topic_id, messages = []\<rparr> topics)"

text \<open>\<^verbatim>\<open>topics[topic_id].messages.append(message_data)\<close>; a missing key raises \<^verbatim>\<open>KeyError\<close>.\<close>

definition append_message ::
  "int \<Rightarrow> message_data \<Rightarrow> (int \<times> topic_data) list \<Rightarrow> (int \<times> topic_data) list option" where
  "append_message topic_id message_data topics =
     (case map_of topics topic_id of
        None \<Rightarrow> None
      | Some t \<Rightarrow> Some (dict_set topic_id (t\<lparr>messages := messages t @ [message_data]\<rparr>) topics))"

text \<open>The \<^verbatim>\<open>MessageData\<close> that \<^verbatim>\<open>_process_message_group_text_only\<close> builds for a group.\<close>

definition group_message_data ::
  "library \<Rightarrow> texts \<Rightarrow> export_config \<Rightarrow> (raw_message \<Rightarrow> string) \<Rightarrow> int
   \<Rightarrow> raw_message \<Rightarrow> raw_message list \<Rightarrow> message_data" where
  "group_message_data lib txts cfg render topic_id first_msg message_group =
     (let combined_content = filter (\<lambda>text_content. text_content \<noteq> []) (map render message_group);
          (is_service', service_desc) = analyze_service_message txts first_msg;
          (is_reply', reply_to_id) = get_reply_info first_msg;
          skip_reason' = get_skip_reason lib txts cfg first_msg;
          reactions' = extract_reactions first_msg;
          grouped_message_ids' = map msg_id message_group
      in \<lparr>md_id = msg_id first_msg,
          md_date = format_message_date lib (date first_msg),
          md_sender = format_sender_name lib txts (sender first_msg),
          html_content = join ''<br>'' combined_content,
          md_topic_id = topic_id,
          is_service = is_service',
          service_description = service_desc,
          is_reply = is_reply',
          md_reply_to_msg_id = reply_to_id,
          skip_reason = skip_reason',
          md_reactions = reactions',
          grouped_message_ids = grouped_message_ids'\<rparr>)"

definition process_message_group_text_only ::
  "library \<Rightarrow> texts \<Rightarrow> export_config \<Rightarrow> (raw_message \<Rightarrow> string) \<Rightarrow> raw_message list
   \<Rightarrow> (int \<times> topic_data) list \<Rightarrow> int \<Rightarrow> (int \<times> topic_data) list option" where
  "process_message_group_text_only lib txts cfg render message_group topics topic_id =
     (case message_group of
        [] \<Rightarrow> Some topics
      | first_msg # rest \<Rightarrow>
          append_message topic_id
            (group_message_data lib txts cfg render topic_id first_msg message_group)
            (ensure_topic txts topic_id topics))"

text \<open>
  The \<^verbatim>\<open>MessageData\<close> of \<^verbatim>\<open>_process_single_message_text_only\<close>: the constructor call
  gives no \<^verbatim>\<open>grouped_message_ids\<close>, so the field is the default empty list.
\<close>

definition single_message_data ::
  "library \<Rightarrow> texts \<Rightarrow> export_config \<Rightarrow> (raw_message \<Rightarrow> string) \<Rightarrow> int
   \<Rightarrow> raw_message \<Rightarrow> message_data" where
  "single_message_data lib txts cfg render topic_id msg =
     (let text_content = render msg;
          (is_service', service_desc) = analyze_service_message txts msg;
          (is_reply', reply_to_id) = get_reply_info msg;
          skip_reason' = get_skip_reason lib txts cfg msg;
          reactions' = extract_reactions msg
      in \<lparr>md_id = msg_id msg,
          md_date = format_message_date lib (date msg),
          md_sender = format_sender_name lib txts (sender msg),
          html_content = text_content,
          md_topic_id = topic_id,
          is_service = is_service',
          service_description = service_desc,
          is_reply = is_reply',
          md_reply_to_msg_id = reply_to_id,
          skip_reason = skip_reason',
          md_reactions = reactions',
          grouped_message_ids = []\<rparr>)"

definition process_single_message_text_only ::
  "library \<Rightarrow> texts \<Rightarrow> export_config \<Rightarrow> (raw_message \<Rightarrow> string) \<Rightarrow> raw_message
   \<Rightarrow> (int \<times> topic_data) list \<Rightarrow> int \<Rightarrow> (int \<times> topic_data) list option" where
  "process_single_message_text_only lib txts cfg render msg topics topic_id =
     append_message topic_id (single_message_data lib txts cfg render topic_id msg)
       (ensure_topic txts topic_id topics)"

text \<open>
  \<^verbatim>\<open>_create_sorted_items\<close>: one item per group, dated by its first message, then one
  item per single; the list is sorted by timestamp (a stable sort). \<^verbatim>\<open>messages[0]\<close> of
  an empty group raises \<^verbatim>\<open>IndexError\<close>: the result is \<open>None\<close>.
\<close>

datatype item = Group int "raw_message list" | Single int raw_message

fun item_timestamp :: "item \<Rightarrow> int" where
  "item_timestamp (Group ts ms) = ts"
| "item_timestamp (Single ts m) = ts"

fun group_items :: "(int \<times> raw_message list) list \<Rightarrow> item list option" where
  "group_items [] = Some []"
| "group_items ((group_id, ms) # rest) =
     (case ms of
        [] \<Rightarrow> None
      | first_msg # others \<Rightarrow>
          (case group_items rest of
             None \<Rightarrow> None
           | Some items \<Rightarrow> Some (Group (date first_msg) ms # items)))"

definition create_sorted_items ::
  "(int \<times> raw_message list) list \<Rightarrow> raw_message list \<Rightarrow> item list option" where
  "create_sorted_items grouped_messages single_messages =
     (case group_items grouped_messages of
        None \<Rightarrow> None
      | Some items \<Rightarrow>
          Some (sort_key item_timestamp (items @ map (\<lambda>msg. Single (date msg) msg) single_messages)))"

text \<open>The loop of stage 1 over the sorted items.\<close>

fun text_pass ::
  "library \<Rightarrow> texts \<Rightarrow> export_config \<Rightarrow> (raw_message \<Rightarrow> string) \<Rightarrow> item list
   \<Rightarrow> (int \<times> topic_data) list \<Rightarrow> int \<Rightarrow> (int \<times> topic_data) list option" where
  "text_pass lib txts cfg render [] topics topic_id = Some topics"
| "text_pass lib txts cfg render (Group ts ms # rest) topics topic_id =
     (case process_message_group_text_only lib txts cfg render ms topics topic_id of
        None \<Rightarrow> None
      | Some topics' \<Rightarrow> text_pass lib txts cfg render rest topics' topic_id)"
| "text_pass lib txts cfg render (Single ts m # rest) topics topic_id =
     (case process_single_message_text_only lib txts cfg render m topics topic_id of
        None \<Rightarrow> None
      | Some topics' \<Rightarrow> text_pass lib txts cfg render rest topics' topic_id)"

text \<open>The record an item gives rise to (an empty group gives none).\<close>

fun item_record ::
  "library \<Rightarrow> texts \<Rightarrow> export_config \<Rightarrow> (raw_message \<Rightarrow> string) \<Rightarrow> int \<Rightarrow> item
   \<Rightarrow> message_data list" where
  "item_record lib txts cfg render topic_id (Group ts []) = []"
| "item_record lib txts cfg render topic_id (Group ts (first_msg # rest)) =
     [group_message_data lib txts cfg render topic_id first_msg (first_msg # rest)]"
| "item_record lib txts cfg render topic_id (Single ts m) =
     [single_message_data lib txts cfg render topic_id m]"

section \<open>Routing media to records (services/message\_processor.py)\<close>

definition append_media_to_content :: "message_data \<Rightarrow> string \<Rightarrow> message_data" where
  "append_media_to_content entry media_html =
     (if html_content entry \<noteq> []
      then entry\<lparr>html_content := html_content entry @ ''<br>'' @ media_html\<rparr>
      else entry\<lparr>html_content := media_html\<rparr>)"

text \<open>
  The loop of \<^verbatim>\<open>_add_media_to_message\<close>: the first record whose id is the message id,
  or whose group ids contain it, receives the media; then the loop returns.
\<close>

fun add_media_loop :: "message_data list \<Rightarrow> int \<Rightarrow> string \<Rightarrow> message_data list" where
  "add_media_loop [] msg_id' media_html = []"
| "add_media_loop (entry # rest) msg_id' media_html =
     (if md_id entry = msg_id' then append_media_to_content entry media_html # rest
      else if msg_id' \<in> set (grouped_message_ids entry)
      then append_media_to_content entry media_html # rest
      else entry # add_media_loop rest msg_id' media_html)"

definition add_media_to_message ::
  "(int \<times> topic_data) list \<Rightarrow> int \<Rightarrow> int \<Rightarrow> string \<Rightarrow> (int \<times> topic_data) list" where
  "add_media_to_message topics topic_id msg_id' media_html =
     (case map_of topics topic_id of
        None \<Rightarrow> topics
      | Some t \<Rightarrow>
          dict_set topic_id (t\<lparr>messages := add_media_loop (messages t) msg_id' media_html\<rparr>) topics)"

text \<open>The test by which the media pass picks its target record.\<close>

definition media_target :: "int \<Rightarrow> message_data \<Rightarrow> bool" where
  "media_target msg_id' entry =
     (md_id entry = msg_id' \<or> msg_id' \<in> set (grouped_message_ids entry))"

section \<open>Media pipeline (services/media\_processor.py, utils)\<close>

datatype error =
    MediaDownloadError
  | IndexError
  | KeyError
  | ValueError
  | TemplateRenderError
  | ExportError
  | ChatResolutionError
  | TelegramAPIError

text \<open>\<^verbatim>\<open>FileSystemService.sanitize_filename\<close> (utils/filesystem.py).\<close>

definition strip_chars :: "string \<Rightarrow> string \<Rightarrow> string" where
  "strip_chars cs s =
     rev (dropWhile (\<lambda>c. c \<in> set cs) (rev (dropWhile (\<lambda>c. c \<in> set cs) s)))"

definition sanitize_filename :: "library \<Rightarrow> string \<Rightarrow> string option" where
  \<open>sanitize_filename lib filename =
     (let f1 = os_basename lib filename;
          f2 = map (\<lambda>c. if c \<in> set ''<>:"/|?*'' \<or> c = CHR 0x5C then CHR ''_'' else c) f1;
          f3 = strip_chars ''. '' f2;
          f4 = (if length f3 > 255
                then (let (name, ext) = os_splitext lib f3 in take 250 name @ ext)
                else f3)
      in if f4 \<noteq> [] then Some f4 else None)\<close>

text \<open>
  The state of a \<^verbatim>\<open>MediaProcessor\<close>: the set of downloaded file names and the global
  counter. \<open>download_calls\<close> is not a field of the class: it records, in order, the
  calls of the external \<^verbatim>\<open>msg.download_media\<close> (message id and file name), so that
  theorems can speak about the downloads a run performs.
\<close>

record media_processor =
  downloaded_files :: "string set"
  global_media_counter :: nat
  download_calls :: "(int \<times> string) list"

text \<open>
  The external download operation: it returns a path, returns \<^verbatim>\<open>None\<close>, or raises. Its
  outcome may depend on the message and on the file name it is asked to write.
\<close>

datatype download_result = Downloaded string | NoFile | DownloadRaises

definition get_next_global_index :: "media_processor \<Rightarrow> nat \<times> media_processor" where
  "get_next_global_index mp =
     (global_media_counter mp + 1, mp\<lparr>global_media_counter := global_media_counter mp + 1\<rparr>)"

fun first_suffix :: "library \<Rightarrow> document_attribute list \<Rightarrow> string option" where
  "first_suffix lib [] = None"
| "first_suffix lib (attr # rest) =
     (case file_name attr of
        Some n \<Rightarrow>
          if n \<noteq> [] \<and> path_suffix lib n \<noteq> [] then Some (str_lower lib (path_suffix lib n))
          else first_suffix lib rest
      | None \<Rightarrow> first_suffix lib rest)"

definition mime_extension :: "string \<Rightarrow> string" where
  "mime_extension mime =
     (if py_in ''pdf'' mime then ''.pdf''
      else if py_in ''image'' mime then
        (if py_in ''webp'' mime then ''.webp''
         else if py_in ''png'' mime then ''.png''
         else if py_in ''gif'' mime then ''.gif''
         else ''.jpg'')
      else if py_in ''video'' mime then ''.mp4''
      else if py_in ''audio'' mime then ''.mp3''
      else if py_in ''text'' mime then ''.txt''
      else if py_in ''zip'' mime \<or> py_in ''archive'' mime then ''.zip''
      else ''.bin'')"

definition get_file_extension :: "library \<Rightarrow> raw_message \<Rightarrow> string" where
  "get_file_extension lib msg =
     (case (case media_document msg of
              Some d \<Rightarrow> first_suffix lib (attributes d)
            | None \<Rightarrow> None) of
        Some ext \<Rightarrow> ext
      | None \<Rightarrow>
          (case get_media_type msg of
             Some PHOTO \<Rightarrow> ''.jpg''
           | Some VIDEO \<Rightarrow> ''.mp4''
           | Some VIDEO_NOTE \<Rightarrow> ''.mp4''
           | Some VOICE \<Rightarrow> ''.ogg''
           | Some AUDIO \<Rightarrow> ''.mp3''
           | Some GIF \<Rightarrow> ''.gif''
           | Some DOCUMENT \<Rightarrow>
               (case media_document msg of
                  Some d \<Rightarrow> mime_extension (mime_type d)
                | None \<Rightarrow> ''.bin'')
           | None \<Rightarrow> ''.bin''))"

fun first_safe_name :: "library \<Rightarrow> document_attribute list \<Rightarrow> string option" where
  "first_safe_name lib [] = None"
| "first_safe_name lib (attr # rest) =
     (case file_name attr of
        Some n \<Rightarrow>
          if n \<noteq> [] then
            (case sanitize_filename lib (path_stem lib n) of
               Some safe_name \<Rightarrow> Some safe_name
             | None \<Rightarrow> first_safe_name lib rest)
          else first_safe_name lib rest
      | None \<Rightarrow> first_safe_name lib rest)"

definition get_media_base_name :: "library \<Rightarrow> raw_message \<Rightarrow> string" where
  "get_media_base_name lib msg =
     (let media_type_str =
            (case get_media_type msg of Some t \<Rightarrow> media_type_value t | None \<Rightarrow> ''unknown'')
      in case (case media_document msg of
                 Some d \<Rightarrow> first_safe_name lib (attributes d)
               | None \<Rightarrow> None) of
           Some safe_name \<Rightarrow> media_type_str @ ''_'' @ safe_name
         | None \<Rightarrow> media_type_str)"

text \<open>
  \<^verbatim>\<open>_generate_unique_filename\<close>: every call takes the next global index first, so the
  counter of the processor advances with each call.
\<close>

definition generate_unique_filename ::
  "library \<Rightarrow> media_processor \<Rightarrow> raw_message \<Rightarrow> string \<times> media_processor" where
  "generate_unique_filename lib mp msg =
     (let (global_index, mp') = get_next_global_index mp;
          base_name = get_media_base_name lib msg;
          extension = get_file_extension lib msg
      in (''msg_'' @ str_int (msg_id msg) @ ''_'' @ str_nat global_index @ ''_'' @ base_name
            @ extension, mp'))"

definition generate_media_html :: "library \<Rightarrow> texts \<Rightarrow> raw_message \<Rightarrow> string \<Rightarrow> string" where
  \<open>generate_media_html lib txts msg rel_path =
     (case media msg of
        Some MessageMediaPhoto \<Rightarrow> ''<img src="'' @ rel_path @ ''" loading="lazy" alt="Image">''
      | Some (MessageMediaDocument d) \<Rightarrow>
          if gif msg then ''<img src="'' @ rel_path @ ''" loading="lazy" alt="GIF">''
          else if voice msg \<or> audio msg
          then ''<audio controls src="'' @ rel_path
                 @ ''">Your browser does not support audio.</audio>''
          else ''<a href="'' @ rel_path @ ''" download>'' @ txt_document_icon txts @ '' ''
                 @ html_escape lib (path_name lib rel_path) @ ''</a>''
      | _ \<Rightarrow> ''<a href="'' @ rel_path @ ''">'' @ txt_media_icon txts @ ''</a>'')\<close>

text \<open>
  \<^verbatim>\<open>_download_media\<close>. Every exception inside the \<^verbatim>\<open>try\<close> is turned into a
  \<^verbatim>\<open>MediaDownloadError\<close>; a name already in \<open>downloaded_files\<close> and a download that
  returns no path give \<^verbatim>\<open>None\<close>.
\<close>

definition download_media ::
  "library \<Rightarrow> texts \<Rightarrow> (raw_message \<Rightarrow> string \<Rightarrow> download_result) \<Rightarrow> media_processor
   \<Rightarrow> raw_message \<Rightarrow> (error + string option) \<times> media_processor" where
  "download_media lib txts download mp msg =
     (let (media_filename, mp1) = generate_unique_filename lib mp msg
      in if media_filename \<in> downloaded_files mp1 then (Inr None, mp1)
         else
           (let mp2 = mp1\<lparr>download_calls := download_calls mp1 @ [(msg_id msg, media_filename)]\<rparr>
            in case download msg media_filename of
                 DownloadRaises \<Rightarrow> (Inl MediaDownloadError, mp2)
               | NoFile \<Rightarrow> (Inr None, mp2)
               | Downloaded downloaded_path \<Rightarrow>
                   (Inr (Some (generate_media_html lib txts msg (relpath lib downloaded_path))),
                    mp2\<lparr>downloaded_files := insert media_filename (downloaded_files mp2)\<rparr>)))"

text \<open>
  \<^verbatim>\<open>retry_on_error\<close> (utils/decorators.py): the wrapped operation is run again after an
  exception, up to \<open>max_attempts\<close> times; the last exception is raised again. The sleep
  between attempts has no effect on the result.
\<close>

function retry_on_error ::
  "nat \<Rightarrow> nat \<Rightarrow> ('s \<Rightarrow> (error + 'a option) \<times> 's) \<Rightarrow> 's \<Rightarrow> (error + 'a option) \<times> 's" where
  "retry_on_error max_attempts attempt f s =
     (if attempt \<ge> max_attempts then (Inr None, s)
      else case f s of
             (Inr r, s') \<Rightarrow> (Inr r, s')
           | (Inl e, s') \<Rightarrow>
               if attempt = max_attempts - 1 then (Inl e, s')
               else retry_on_error max_attempts (attempt + 1) f s')"
  by pat_completeness auto
termination
  by (relation "measure (\<lambda>(max_attempts, attempt, f, s). max_attempts - attempt)") auto

declare retry_on_error.simps [simp del]

text \<open>
  \<^verbatim>\<open>process_media\<close>: the body catches every exception of the download and returns
  \<^verbatim>\<open>None\<close>; the decorator wraps the body with three attempts.
\<close>

definition process_media_body ::
  "library \<Rightarrow> texts \<Rightarrow> export_config \<Rightarrow> (raw_message \<Rightarrow> string \<Rightarrow> download_result)
   \<Rightarrow> raw_message \<Rightarrow> media_processor \<Rightarrow> (error + string option) \<times> media_processor" where
  "process_media_body lib txts cfg download msg mp =
     (if media msg = None \<or> should_skip_media cfg msg then (Inr None, mp)
      else case download_media lib txts download mp msg of
             (Inr result, mp') \<Rightarrow> (Inr result, mp')
           | (Inl e, mp') \<Rightarrow> (Inr None, mp'))"

definition process_media ::
  "library \<Rightarrow> texts \<Rightarrow> export_config \<Rightarrow> (raw_message \<Rightarrow> string \<Rightarrow> download_result)
   \<Rightarrow> raw_message \<Rightarrow> media_processor \<Rightarrow> (error + string option) \<times> media_processor" where
  "process_media lib txts cfg download msg mp =
     retry_on_error 3 0 (process_media_body lib txts cfg download msg) mp"

section \<open>Media pass and the streaming pipeline (services/message\_processor.py)\<close>

text \<open>
  \<^verbatim>\<open>_process_all_media_parallel\<close> cuts the media messages into batches of
  \<open>max_concurrent_downloads\<close>, starts one task per message of a batch, waits for all
  of them, and then walks the results in batch order. The tasks of a batch are modelled
  one after the other, in batch order. This is what the event loop does up to the point
  where a task waits for the network: the semaphore has as many slots as a batch has
  tasks, so no task waits for it, and each task takes its global index and tests the set
  of downloaded names before its first wait. The file names of different tasks differ in
  the index, so the order in which finished downloads enter the set changes no test.
\<close>

function batches :: "nat \<Rightarrow> 'a list \<Rightarrow> 'a list list" where
  "batches n xs = (if n = 0 \<or> xs = [] then [] else take n xs # batches n (drop n xs))"
  by pat_completeness auto
termination
  by (relation "measure (\<lambda>(n, xs). length xs)") auto

declare batches.simps [simp del]

fun run_batch ::
  "(raw_message \<Rightarrow> media_processor \<Rightarrow> (error + string option) \<times> media_processor)
   \<Rightarrow> raw_message list \<Rightarrow> media_processor
   \<Rightarrow> (int \<times> (error + string option)) list \<times> media_processor" where
  "run_batch task [] mp = ([], mp)"
| "run_batch task (msg # rest) mp =
     (let (result, mp') = task msg mp;
          (batch_results, mp'') = run_batch task rest mp'
      in ((msg_id msg, result) # batch_results, mp''))"

text \<open>
  The loop over the results of a batch: an exception is logged, a truthy result is added
  to its record, \<^verbatim>\<open>None\<close> and the empty string are passed over.
\<close>

fun apply_results ::
  "(int \<times> (error + string option)) list \<Rightarrow> (int \<times> topic_data) list \<Rightarrow> int
   \<Rightarrow> (int \<times> topic_data) list" where
  "apply_results [] topics topic_id = topics"
| "apply_results ((msg_id', result) # rest) topics topic_id =
     (case result of
        Inl e \<Rightarrow> apply_results rest topics topic_id
      | Inr None \<Rightarrow> apply_results rest topics topic_id
      | Inr (Some media_html) \<Rightarrow>
          if media_html \<noteq> []
          then apply_results rest (add_media_to_message topics topic_id msg_id' media_html) topic_id
          else apply_results rest topics topic_id)"

fun media_batches ::
  "(raw_message \<Rightarrow> media_processor \<Rightarrow> (error + string option) \<times> media_processor)
   \<Rightarrow> raw_message list list \<Rightarrow> (int \<times> topic_data) list \<Rightarrow> int \<Rightarrow> media_processor
   \<Rightarrow> (int \<times> topic_data) list \<times> media_processor" where
  "media_batches task [] topics topic_id mp = (topics, mp)"
| "media_batches task (batch # rest) topics topic_id mp =
     (let (batch_results, mp') = run_batch task batch mp
      in media_batches task rest (apply_results batch_results topics topic_id) topic_id mp')"

text \<open>\<^verbatim>\<open>range(0, total_count, 0)\<close> raises \<^verbatim>\<open>ValueError\<close>.\<close>

definition process_all_media_parallel ::
  "library \<Rightarrow> texts \<Rightarrow> export_config \<Rightarrow> (raw_message \<Rightarrow> string \<Rightarrow> download_result)
   \<Rightarrow> raw_message list \<Rightarrow> (int \<times> topic_data) list \<Rightarrow> int \<Rightarrow> media_processor
   \<Rightarrow> error + (int \<times> topic_data) list \<times> media_processor" where
  "process_all_media_parallel lib txts cfg download msgs topics topic_id mp =
     (let media_messages =
            filter (\<lambda>msg. media msg \<noteq> None \<and> \<not> should_skip_media cfg msg) msgs
      in if media_messages = [] then Inr (topics, mp)
         else if max_concurrent_downloads cfg = 0 then Inl ValueError
         else Inr (media_batches (process_media lib txts cfg download)
                     (batches (max_concurrent_downloads cfg) media_messages) topics topic_id mp))"

text \<open>
  \<^verbatim>\<open>process_messages_streaming\<close> after the message iterator has been drained into
  \<open>all_messages\<close> (the progress log divides by the interval of the configuration, which
  the command line always leaves at 100).
\<close>

definition process_messages_streaming ::
  "library \<Rightarrow> texts \<Rightarrow> export_config \<Rightarrow> (raw_message \<Rightarrow> string)
   \<Rightarrow> (raw_message \<Rightarrow> string \<Rightarrow> download_result)
   \<Rightarrow> raw_message list \<Rightarrow> (int \<times> topic_data) list \<Rightarrow> int \<Rightarrow> media_processor
   \<Rightarrow> error + (int \<times> topic_data) list \<times> media_processor" where
  "process_messages_streaming lib txts cfg render download all_messages topics topic_id mp =
     (let (grouped_messages, single_messages) = group_messages all_messages;
          (filtered_grouped, filtered_single, excluded_count) =
             filter_grouped_messages lib cfg grouped_messages single_messages;
          filtered_message_count =
             sum_list (map (\<lambda>(g, ms). length ms) filtered_grouped) + length filtered_single
      in if filtered_message_count = 0 then Inr (ensure_topic txts topic_id topics, mp)
         else
           (let filtered_messages = concat (map snd filtered_grouped) @ filtered_single
            in case create_sorted_items filtered_grouped filtered_single of
                 None \<Rightarrow> Inl IndexError
               | Some all_items \<Rightarrow>
                   (case text_pass lib txts cfg render all_items topics topic_id of
                      None \<Rightarrow> Inl KeyError
                    | Some topics' \<Rightarrow>
                        process_all_media_parallel lib txts cfg download filtered_messages
                          topics' topic_id mp)))"

text \<open>The records of a topic (none when the topic is missing), and the fields of a record
  that describe the message rather than carry its content.\<close>

definition messages_in :: "(int \<times> topic_data) list \<Rightarrow> int \<Rightarrow> message_data list" where
  "messages_in topics topic_id =
     (case map_of topics topic_id of Some t \<Rightarrow> messages t | None \<Rightarrow> [])"

definition metadata ::
  "message_data \<Rightarrow> string \<times> string \<times> bool \<times> string \<times> bool \<times> int option \<times> string \<times> reaction_data list" where
  "metadata r =
     (md_date r, md_sender r, is_service r, service_description r, is_reply r,
      md_reply_to_msg_id r, skip_reason r, md_reactions r)"

definition example_library :: library where
  "example_library =
     \<lparr>str_lower = map lower_char, get_display_name = (\<lambda>s. ''user''), strftime_local = (\<lambda>d. str_int d),
      format_mb = (\<lambda>n. str_int (n div 1048576)), path_stem = (\<lambda>p. p),
      path_suffix = (\<lambda>p. []), path_name = (\<lambda>p. p), relpath = (\<lambda>p. p),
      html_escape = (\<lambda>p. p), os_basename = (\<lambda>p. p), os_splitext = (\<lambda>p. (p, []))\<rparr>"

definition example_texts :: texts where
  "example_texts =
     \<lparr>txt_unknown_sender = ''unknown'', txt_service_descriptions = [],
      txt_service_fallback = ''service: '', txt_contains = ''contains '',
      txt_file_size = ''file size '', txt_topic = ''Topic '',
      txt_document_icon = ''doc'', txt_media_icon = ''Media file'',
      txt_archive = ''Archive - '', txt_empty_suffix = '' (empty)'',
      txt_all_filtered = ''All messages were filtered out.''\<rparr>"

definition cfg_plain :: export_config where
  "cfg_plain = \<lparr>filter_include_substrings = [], filter_exclude_substrings = [],
     filter_case_sensitive = True, skip_media_types = [], max_file_size_mb = 50,
     max_concurrent_downloads = 5, included_topics = [], excluded_topics = []\<rparr>"

definition render_plain :: "raw_message \<Rightarrow> string" where
  "render_plain msg = (case msg_text msg of Some t \<Rightarrow> t | None \<Rightarrow> [])"

definition album_message :: "int \<Rightarrow> int \<Rightarrow> int \<Rightarrow> string \<Rightarrow> raw_message" where
  "album_message i d g t = (plain_message i d t)\<lparr>grouped_id := Some g\<rparr>"

definition photo_message :: "int \<Rightarrow> int \<Rightarrow> raw_message" where
  "photo_message i d = (plain_message i d [])\<lparr>media := Some MessageMediaPhoto\<rparr>"

definition reacted_reply_message :: "int \<Rightarrow> int \<Rightarrow> int \<Rightarrow> raw_message" where
  "reacted_reply_message i d g =
     (album_message i d g [])
       \<lparr>reply_to := Some \<lparr>reply_to_msg_id = Some 1, forum_topic = False, reply_to_top_id = None\<rparr>,
        reactions := Some \<lparr>results =
          Some [\<lparr>rc_count = Some 3, rc_reaction = Some \<lparr>emoticon = Some ''+''\<rparr>\<rparr>]\<rparr>\<rparr>"

text \<open>A download that always succeeds and writes the file it is asked for, and a
  processor at the start of a run.\<close>

definition download_ok :: "raw_message \<Rightarrow> string \<Rightarrow> download_result" where
  "download_ok msg file = Downloaded file"

definition fresh_processor :: media_processor where
  "fresh_processor = \<lparr>downloaded_files = {}, global_media_counter = 0, download_calls = []\<rparr>"

text \<open>A download that raises for message 1 and succeeds for every other message, and a
  topic holding the records of two single messages.\<close>

definition download_first_fails :: "raw_message \<Rightarrow> string \<Rightarrow> download_result" where
  "download_first_fails msg file = (if msg_id msg = 1 then DownloadRaises else Downloaded file)"

definition example_topics :: "(int \<times> topic_data) list" where
  "example_topics =
     [(1, \<lparr>td_id = 1, title = ''Topic 1'',
          messages = [single_message_data example_library example_texts cfg_plain render_plain 1
                        ((photo_message 1 10)\<lparr>message := Some ''one'', msg_text := Some ''one''\<rparr>),
                      single_message_data example_library example_texts cfg_plain render_plain 1
                        ((photo_message 2 20)\<lparr>message := Some ''two'', msg_text := Some ''two''\<rparr>)]\<rparr>)]"

section \<open>Link rewriter (renderers/message\_renderer.py)\<close>

text \<open>
  The three link patterns are compiled with \<^verbatim>\<open>IGNORECASE | DOTALL\<close>. Each of them is a
  sequence of pieces none of which can give back characters to the next one: a greedy
  \<^verbatim>\<open>\s+\<close> or \<^verbatim>\<open>\d+\<close> is followed by a character outside its class, the lazy optional
  query \<^verbatim>\<open>(?:\?[^"]*)??\<close> is followed by the quote that \<^verbatim>\<open>[^"]*\<close> cannot cross,
  \<^verbatim>\<open>[^>]*\<close> is followed by \<^verbatim>\<open>>\<close>, and the lazy \<^verbatim>\<open>.*?\<close> stops at the first
  \<^verbatim>\<open></a>\<close>. So a match at a position is found by reading the pieces from left to
  right, which is what the functions below do. Characters are the 256 characters of
  \<^typ>\<open>char\<close>; among them \<^verbatim>\<open>\s\<close> matches the twelve characters of \<open>is_space\<close>,
  \<^verbatim>\<open>\d\<close> the ten digits, and a letter of a pattern its two cases.
\<close>

definition is_space :: "char \<Rightarrow> bool" where
  "is_space c =
     (c \<in> set [CHR 0x09, CHR 0x0A, CHR 0x0B, CHR 0x0C, CHR 0x0D, CHR 0x1C, CHR 0x1D, CHR 0x1E,
               CHR 0x1F, CHR 0x20, CHR 0x85, CHR 0xA0])"

definition is_digit :: "char \<Rightarrow> bool" where
  "is_digit c = (c \<in> set ''0123456789'')"

text \<open>A literal piece of a pattern, read without regard to case; the result is the rest
  of the text.\<close>

fun lit_ci :: "string \<Rightarrow> string \<Rightarrow> string option" where
  "lit_ci [] s = Some s"
| "lit_ci (p # ps) [] = None"
| "lit_ci (p # ps) (c # cs) = (if lower_char p = lower_char c then lit_ci ps cs else None)"

text \<open>\<^verbatim>\<open><a\s+href="https://t\.me/c/\<close>\<close>

definition match_link_prefix :: "string \<Rightarrow> string option" where
  \<open>match_link_prefix s =
     (case lit_ci ''<a'' s of
        None \<Rightarrow> None
      | Some s1 \<Rightarrow>
          if takeWhile is_space s1 = [] then None
          else lit_ci ''href="https://t.me/c/'' (dropWhile is_space s1))\<close>

text \<open>\<^verbatim>\<open>(\d+)\<close>\<close>

definition digits :: "string \<Rightarrow> (string \<times> string) option" where
  "digits s =
     (if takeWhile is_digit s = [] then None
      else Some (takeWhile is_digit s, dropWhile is_digit s))"

text \<open>\<^verbatim>\<open>/\<close>\<close>

definition slash :: "string \<Rightarrow> string option" where
  "slash s = (case s of [] \<Rightarrow> None | c # cs \<Rightarrow> if c = CHR ''/'' then Some cs else None)"

text \<open>\<^verbatim>\<open>(?:\?[^"]*)??"\<close>: the closing quote of the address, after an optional query.\<close>

definition query_and_quote :: "string \<Rightarrow> string option" where
  \<open>query_and_quote s =
     (case s of
        [] \<Rightarrow> None
      | c # cs \<Rightarrow>
          if c = CHR ''"'' then Some cs
          else if c = CHR ''?'' then
            (case dropWhile (\<lambda>d. d \<noteq> CHR ''"'') cs of [] \<Rightarrow> None | q # rest \<Rightarrow> Some rest)
          else None)\<close>

text \<open>\<^verbatim>\<open>(.*?)</a>\<close>: the text up to the first closing tag.\<close>

fun link_text :: "string \<Rightarrow> (string \<times> string) option" where
  "link_text [] = None"
| "link_text (c # cs) =
     (case lit_ci ''</a>'' (c # cs) of
        Some rest \<Rightarrow> Some ([], rest)
      | None \<Rightarrow>
          (case link_text cs of
             None \<Rightarrow> None
           | Some (t, rest) \<Rightarrow> Some (c # t, rest)))"

text \<open>\<^verbatim>\<open>([^>]*)>(.*?)</a>\<close>\<close>

definition attributes_and_text :: "string \<Rightarrow> (string \<times> string \<times> string) option" where
  "attributes_and_text s =
     (case dropWhile (\<lambda>c. c \<noteq> CHR ''>'') s of
        [] \<Rightarrow> None
      | gt # s1 \<Rightarrow>
          (case link_text s1 of
             None \<Rightarrow> None
           | Some (t, rest) \<Rightarrow> Some (takeWhile (\<lambda>c. c \<noteq> CHR ''>'') s, t, rest)))"

text \<open>
  The three patterns. The result of a match is the tuple of its groups and the text after
  the match.
\<close>

definition FORUM_MESSAGE_LINK_PATTERN ::
  "string \<Rightarrow> ((string \<times> string \<times> string \<times> string \<times> string) \<times> string) option" where
  "FORUM_MESSAGE_LINK_PATTERN s =
     (case match_link_prefix s of None \<Rightarrow> None | Some s1 \<Rightarrow>
      case digits s1 of None \<Rightarrow> None | Some (chat, s2) \<Rightarrow>
      case slash s2 of None \<Rightarrow> None | Some s3 \<Rightarrow>
      case digits s3 of None \<Rightarrow> None | Some (topic, s4) \<Rightarrow>
      case slash s4 of None \<Rightarrow> None | Some s5 \<Rightarrow>
      case digits s5 of None \<Rightarrow> None | Some (msg, s6) \<Rightarrow>
      case query_and_quote s6 of None \<Rightarrow> None | Some s7 \<Rightarrow>
      case attributes_and_text s7 of None \<Rightarrow> None | Some (attrs, t, rest) \<Rightarrow>
        Some ((chat, topic, msg, attrs, t), rest))"

text \<open>\<^verbatim>\<open>(?!/\d+)\<close>: the text does not go on with a slash and a digit.\<close>

definition no_third_number :: "string \<Rightarrow> bool" where
  "no_third_number s =
     (case s of c # d # cs \<Rightarrow> \<not> (c = CHR ''/'' \<and> is_digit d) | _ \<Rightarrow> True)"

definition FORUM_TOPIC_LINK_PATTERN ::
  "string \<Rightarrow> ((string \<times> string \<times> string \<times> string) \<times> string) option" where
  "FORUM_TOPIC_LINK_PATTERN s =
     (case match_link_prefix s of None \<Rightarrow> None | Some s1 \<Rightarrow>
      case digits s1 of None \<Rightarrow> None | Some (chat, s2) \<Rightarrow>
      case slash s2 of None \<Rightarrow> None | Some s3 \<Rightarrow>
      case digits s3 of None \<Rightarrow> None | Some (topic, s4) \<Rightarrow>
      if \<not> no_third_number s4 then None else
      case query_and_quote s4 of None \<Rightarrow> None | Some s5 \<Rightarrow>
      case attributes_and_text s5 of None \<Rightarrow> None | Some (attrs, t, rest) \<Rightarrow>
        Some ((chat, topic, attrs, t), rest))"

definition REGULAR_MESSAGE_LINK_PATTERN ::
  "string \<Rightarrow> ((string \<times> string \<times> string \<times> string) \<times> string) option" where
  "REGULAR_MESSAGE_LINK_PATTERN s =
     (case match_link_prefix s of None \<Rightarrow> None | Some s1 \<Rightarrow>
      case digits s1 of None \<Rightarrow> None | Some (chat, s2) \<Rightarrow>
      case slash s2 of None \<Rightarrow> None | Some s3 \<Rightarrow>
      case digits s3 of None \<Rightarrow> None | Some (msg, s4) \<Rightarrow>
      case query_and_quote s4 of None \<Rightarrow> None | Some s5 \<Rightarrow>
      case attributes_and_text s5 of None \<Rightarrow> None | Some (attrs, t, rest) \<Rightarrow>
        Some ((chat, msg, attrs, t), rest))"

text \<open>\<^verbatim>\<open>class="([^"]*)"\<close>, compiled without flags.\<close>

definition class_pattern :: "string \<Rightarrow> (string \<times> string) option" where
  \<open>class_pattern s =
     (if starts_with ''class="'' s then
        (case dropWhile (\<lambda>c. c \<noteq> CHR ''"'') (drop 7 s) of
           [] \<Rightarrow> None
         | q # rest \<Rightarrow> Some (takeWhile (\<lambda>c. c \<noteq> CHR ''"'') (drop 7 s), rest))
      else None)\<close>

text \<open>
  \<^verbatim>\<open>pattern.sub(repl, string)\<close>: the text is read from the left; where the pattern
  matches, the match is replaced by what \<open>repl\<close> gives for its groups and for the matched
  text, and reading goes on after the match; elsewhere one character is copied. None of
  the patterns matches the empty string, so a match always leaves a shorter rest.
\<close>

function sub :: "(string \<Rightarrow> ('g \<times> string) option) \<Rightarrow> ('g \<Rightarrow> string \<Rightarrow> string) \<Rightarrow> string \<Rightarrow> string" where
  "sub pattern repl s =
     (if s = [] then []
      else case pattern s of
             None \<Rightarrow> hd s # sub pattern repl (tl s)
           | Some (groups, rest) \<Rightarrow>
               if length rest < length s
               then repl groups (take (length s - length rest) s) @ sub pattern repl rest
               else hd s # sub pattern repl (tl s))"
  by pat_completeness auto
termination
  by (relation "measure (\<lambda>(pattern, repl, s). length s)") auto

declare sub.simps [simp del]

text \<open>\<^verbatim>\<open>int(match.group(1))\<close> on a string of digits.\<close>

definition digit_value :: "char \<Rightarrow> int" where
  "digit_value c =
     (case map_of (zip ''0123456789'' [0, 1, 2, 3, 4, 5, 6, 7, 8, 9]) c of
        Some d \<Rightarrow> d
      | None \<Rightarrow> 0)"

definition py_int :: "string \<Rightarrow> int" where
  "py_int s = foldl (\<lambda>n c. 10 * n + digit_value c) 0 s"

text \<open>
  The guard \<^verbatim>\<open>self.current_chat_id and chat_id != self.current_chat_id\<close>: a chat id that
  is \<^verbatim>\<open>None\<close> or zero is false, and then no link is left as it is.
\<close>

definition is_external :: "int option \<Rightarrow> string \<Rightarrow> bool" where
  "is_external current_chat_id chat =
     (case current_chat_id of
        None \<Rightarrow> False
      | Some current \<Rightarrow> current \<noteq> 0 \<and> py_int chat \<noteq> current)"

text \<open>The part of the three replacement functions that adds the class.\<close>

definition add_internal_link_class :: "string \<Rightarrow> string" where
  \<open>add_internal_link_class attrs =
     (if py_in ''class='' attrs
      then sub class_pattern (\<lambda>v whole. ''class="'' @ v @ '' internal-link"'') attrs
      else '' class="internal-link"'' @ attrs)\<close>

definition replace_forum_message_link ::
  "int option \<Rightarrow> string \<times> string \<times> string \<times> string \<times> string \<Rightarrow> string \<Rightarrow> string" where
  \<open>replace_forum_message_link current_chat_id groups whole =
     (case groups of (chat, topic_id, message_id, attrs, link_text') \<Rightarrow>
        if is_external current_chat_id chat then whole
        else ''<a href="#msg-'' @ message_id @ ''"'' @ add_internal_link_class attrs
               @ '' data-msg-id="'' @ message_id @ ''" data-topic-id="'' @ topic_id @ ''"''
               @ ''>'' @ link_text' @ ''</a>'')\<close>

definition replace_forum_topic_link ::
  "int option \<Rightarrow> string \<times> string \<times> string \<times> string \<Rightarrow> string \<Rightarrow> string" where
  \<open>replace_forum_topic_link current_chat_id groups whole =
     (case groups of (chat, topic_id, attrs, link_text') \<Rightarrow>
        if is_external current_chat_id chat then whole
        else ''<a href="#topic-'' @ topic_id @ ''"'' @ add_internal_link_class attrs
               @ '' data-topic-id="'' @ topic_id @ ''"''
               @ ''>'' @ link_text' @ ''</a>'')\<close>

definition replace_regular_message_link ::
  "int option \<Rightarrow> string \<times> string \<times> string \<times> string \<Rightarrow> string \<Rightarrow> string" where
  \<open>replace_regular_message_link current_chat_id groups whole =
     (case groups of (chat, message_id, attrs, link_text') \<Rightarrow>
        if is_external current_chat_id chat then whole
        else ''<a href="#msg-'' @ message_id @ ''"'' @ add_internal_link_class attrs
               @ '' data-msg-id="'' @ message_id @ ''"''
               @ ''>'' @ link_text' @ ''</a>'')\<close>

text \<open>\<^verbatim>\<open>_transform_telegram_links\<close>: in a forum the message links first, then the topic
  links; in a plain chat the message links only.\<close>

definition transform_telegram_links :: "int option \<Rightarrow> bool \<Rightarrow> string \<Rightarrow> string" where
  "transform_telegram_links current_chat_id is_forum html_text =
     (if is_forum
      then sub FORUM_TOPIC_LINK_PATTERN (replace_forum_topic_link current_chat_id)
             (sub FORUM_MESSAGE_LINK_PATTERN (replace_forum_message_link current_chat_id)
                html_text)
      else sub REGULAR_MESSAGE_LINK_PATTERN (replace_regular_message_link current_chat_id)
             html_text)"

text \<open>\<^verbatim>\<open>render_message\<close>: the text of the message, when there is one, with its links
  transformed.\<close>

definition render_message :: "int option \<Rightarrow> bool \<Rightarrow> raw_message \<Rightarrow> string" where
  "render_message current_chat_id is_forum msg =
     (let content_parts =
            (case msg_text msg of
               None \<Rightarrow> []
             | Some t \<Rightarrow>
                 if t \<noteq> [] then [transform_telegram_links current_chat_id is_forum t] else [])
      in join ''<br>'' (filter (\<lambda>part. part \<noteq> []) content_parts))"

section \<open>Final rendering (renderers/html\_renderer.py)\<close>

text \<open>
  The chat that the run exports, with the name Telethon displays for it, and the
  arguments that the renderer passes to the template. The template itself is a parameter:
  it gives the document, or fails.
\<close>

record entity =
  entity_id :: int
  entity_name :: string

record template_arguments =
  ta_title :: string
  ta_topics :: "topic_data list"
  ta_empty_message :: "string option"

text \<open>
  The loop of \<^verbatim>\<open>HTMLRenderer.render\<close> over the sorted topic ids: a topic without
  messages is left out, the messages of the others are sorted by id, newest first
  (\<^verbatim>\<open>list.sort\<close> with \<^verbatim>\<open>reverse=True\<close> keeps the order of equal ids). The ids come from
  the dictionary itself, so the lookup finds every one of them.
\<close>

fun sorted_topics_loop :: "int list \<Rightarrow> (int \<times> topic_data) list \<Rightarrow> topic_data list" where
  "sorted_topics_loop [] topics = []"
| "sorted_topics_loop (topic_id # rest) topics =
     (case map_of topics topic_id of
        None \<Rightarrow> sorted_topics_loop rest topics
      | Some topic \<Rightarrow>
          if messages topic \<noteq> []
          then topic\<lparr>messages := sort_key (\<lambda>x. - md_id x) (messages topic)\<rparr>
                 # sorted_topics_loop rest topics
          else sorted_topics_loop rest topics)"

definition sorted_topics :: "(int \<times> topic_data) list \<Rightarrow> topic_data list" where
  "sorted_topics topics = sorted_topics_loop (sort (map fst topics)) topics"

definition html_render ::
  "texts \<Rightarrow> (template_arguments \<Rightarrow> string option) \<Rightarrow> entity \<Rightarrow> (int \<times> topic_data) list
   \<Rightarrow> error + string" where
  "html_render txts template ent topics =
     (case template \<lparr>ta_title = txt_archive txts @ entity_name ent,
                      ta_topics = sorted_topics topics, ta_empty_message = None\<rparr> of
        None \<Rightarrow> Inl TemplateRenderError
      | Some html \<Rightarrow> Inr html)"

definition html_render_empty ::
  "texts \<Rightarrow> (template_arguments \<Rightarrow> string option) \<Rightarrow> entity \<Rightarrow> string \<Rightarrow> error + string" where
  "html_render_empty txts template ent empty_message =
     (case template \<lparr>ta_title = txt_archive txts @ entity_name ent @ txt_empty_suffix txts,
                      ta_topics = [], ta_empty_message = Some empty_message\<rparr> of
        None \<Rightarrow> Inl TemplateRenderError
      | Some html \<Rightarrow> Inr html)"

section \<open>Forum topics (services/telegram\_client.py)\<close>

text \<open>
  The answer to the request for the forum topics: the topics with id and title, the
  \<^verbatim>\<open>RPCError\<close> of a chat that is no forum, or another failure (which the retries of the
  decorator do not overcome).
\<close>

datatype forum_response = ForumTopics "(int \<times> string) list" | RPCError | RequestFails

definition should_include_topic :: "library \<Rightarrow> export_config \<Rightarrow> string \<Rightarrow> bool" where
  "should_include_topic lib cfg topic_title =
     (if included_topics cfg \<noteq> []
         \<and> str_lower lib topic_title \<notin> set (map (str_lower lib) (included_topics cfg)) then False
      else if excluded_topics cfg \<noteq> []
         \<and> str_lower lib topic_title \<in> set (map (str_lower lib) (excluded_topics cfg)) then False
      else True)"

fun load_topics_loop ::
  "library \<Rightarrow> export_config \<Rightarrow> (int \<times> string) list \<Rightarrow> (int \<times> topic_data) list
   \<Rightarrow> (int \<times> topic_data) list" where
  "load_topics_loop lib cfg [] topics = topics"
| "load_topics_loop lib cfg ((topic_id, topic_title) # rest) topics =
     (if should_include_topic lib cfg topic_title
      then load_topics_loop lib cfg rest
             (dict_set topic_id \<lparr>td_id = topic_id, title = topic_title, messages = []\<rparr> topics)
      else load_topics_loop lib cfg rest topics)"

definition load_forum_topics ::
  "library \<Rightarrow> export_config \<Rightarrow> forum_response \<Rightarrow> error + (int \<times> topic_data) list \<times> bool" where
  "load_forum_topics lib cfg response =
     (case response of
        ForumTopics ts \<Rightarrow> Inr (load_topics_loop lib cfg ts [], True)
      | RPCError \<Rightarrow> Inr ([(1, \<lparr>td_id = 1, title = ''General'', messages = []\<rparr>)], False)
      | RequestFails \<Rightarrow> Inl TelegramAPIError)"

section \<open>The export run (orchestrator.py)\<close>

text \<open>
  What the run meets outside the program: whether the directories can be made and the
  client starts, the chat the identifier resolves to, the answer about the forum topics,
  the messages of the chat or of one topic, the download of a file, the template, and
  whether the document can be written and the style files copied.
\<close>

record world =
  setup_directories_ok :: bool
  client_start_ok :: bool
  resolve_chat :: "error + entity"
  forum_topics_response :: forum_response
  iter_messages :: "int option \<Rightarrow> error + raw_message list"
  download_file :: "raw_message \<Rightarrow> string \<Rightarrow> download_result"
  template :: "template_arguments \<Rightarrow> string option"
  write_text_ok :: "string \<Rightarrow> bool"
  copy_required_files_ok :: bool

record export_result =
  success :: bool
  total_messages :: nat
  total_topics :: nat
  media_count :: nat
  export_error :: "error option"

text \<open>
  The loop over the topics of a forum: each topic is processed on its own, from a
  dictionary that holds only this topic, without messages, and the processed topic is
  copied into the result. \<open>process\<close> is \<^verbatim>\<open>message_processor.process_messages_streaming\<close>.
\<close>

fun process_forum_topics ::
  "(raw_message list \<Rightarrow> (int \<times> topic_data) list \<Rightarrow> int \<Rightarrow> media_processor
      \<Rightarrow> error + (int \<times> topic_data) list \<times> media_processor)
   \<Rightarrow> (int option \<Rightarrow> error + raw_message list)
   \<Rightarrow> (int \<times> topic_data) list \<Rightarrow> (int \<times> topic_data) list \<Rightarrow> media_processor
   \<Rightarrow> error + (int \<times> topic_data) list \<times> media_processor" where
  "process_forum_topics process iter [] processed_topics mp = Inr (processed_topics, mp)"
| "process_forum_topics process iter ((topic_id, topic) # rest) processed_topics mp =
     (case iter (Some topic_id) of
        Inl e \<Rightarrow> Inl e
      | Inr topic_messages \<Rightarrow>
          (case process topic_messages
                  [(topic_id, \<lparr>td_id = topic_id, title = title topic, messages = []\<rparr>)] topic_id mp of
             Inl e \<Rightarrow> Inl e
           | Inr (processed_temp_topics, mp') \<Rightarrow>
               (case map_of processed_temp_topics topic_id of
                  None \<Rightarrow> Inl KeyError
                | Some t \<Rightarrow>
                    process_forum_topics process iter rest
                      (dict_set topic_id t processed_topics) mp')))"

definition failed :: "error \<Rightarrow> export_result \<times> (string \<times> media_processor) option" where
  "failed e =
     (\<lparr>success = False, total_messages = 0, total_topics = 0, media_count = 0,
       export_error = Some e\<rparr>, None)"

text \<open>
  \<^verbatim>\<open>export_chat\<close>. Every exception ends the run with a result whose \<open>success\<close> is false
  (so the retries of the decorator never happen). Beside the result, a successful run
  gives the document it wrote and the final state of the media processor.
\<close>

definition export_chat ::
  "library \<Rightarrow> texts \<Rightarrow> export_config \<Rightarrow> world
   \<Rightarrow> export_result \<times> (string \<times> media_processor) option" where
  "export_chat lib txts cfg w =
     (if \<not> setup_directories_ok w then failed ExportError
      else if \<not> client_start_ok w then failed TelegramAPIError
      else case resolve_chat w of Inl e \<Rightarrow> failed e | Inr ent \<Rightarrow>
      case load_forum_topics lib cfg (forum_topics_response w) of
        Inl e \<Rightarrow> failed e
      | Inr (topics, is_forum) \<Rightarrow>
      let media_processor =
            \<lparr>downloaded_files = {}, global_media_counter = 0, download_calls = []\<rparr>;
          process = process_messages_streaming lib txts cfg
                      (render_message (Some (entity_id ent)) is_forum) (download_file w)
      in case (if is_forum
               then process_forum_topics process (iter_messages w) topics [] media_processor
               else (case iter_messages w None of
                       Inl e \<Rightarrow> Inl e
                     | Inr all_messages \<Rightarrow> process all_messages topics 1 media_processor)) of
           Inl e \<Rightarrow> failed e
         | Inr (topics', mp') \<Rightarrow>
      let total = sum_list (map (\<lambda>(topic_id, topic). length (messages topic)) topics')
      in case (if topics' = [] \<or> total = 0
               then html_render_empty txts (template w) ent (txt_all_filtered txts)
               else html_render txts (template w) ent topics') of
           Inl e \<Rightarrow> failed e
         | Inr html \<Rightarrow>
             if \<not> write_text_ok w html then failed ExportError
             else if \<not> copy_required_files_ok w then failed ExportError
             else (\<lparr>success = True, total_messages = total, total_topics = length topics',
                    media_count = card (downloaded_files mp'), export_error = None\<rparr>,
                   Some (html, mp')))"

section \<open>Notions used by the ordering theorems\<close>

text \<open>
  The sorted item list that \<^verbatim>\<open>process_messages_streaming\<close> computes from the collected
  messages; an item dated as \<^verbatim>\<open>_create_sorted_items\<close> dates it; and a record without
  its content, the only field the media pass changes.
\<close>

definition sorted_items_of :: "library \<Rightarrow> export_config \<Rightarrow> raw_message list \<Rightarrow> item list option" where
  "sorted_items_of lib cfg all_messages =
     (let (grouped_messages, single_messages) = group_messages all_messages;
          (filtered_grouped, filtered_single, excluded_count) =
             filter_grouped_messages lib cfg grouped_messages single_messages
      in create_sorted_items filtered_grouped filtered_single)"

fun well_dated :: "item \<Rightarrow> bool" where
  "well_dated (Group ts ms) = (ms \<noteq> [] \<and> ts = date (hd ms))"
| "well_dated (Single ts m) = (ts = date m)"

definition without_content :: "message_data \<Rightarrow> message_data" where
  "without_content r = r\<lparr>html_content := []\<rparr>"

section \<open>Reference notions for the media pass\<close>

text \<open>
  What the media pass is expected to compute, written without its batches: the results of
  the task on the messages, one after the other, each from the state the one before left;
  the results that carry markup; and the topics after each of these has been added to its
  record.
\<close>

definition results_in_order ::
  "(raw_message \<Rightarrow> media_processor \<Rightarrow> (error + string option) \<times> media_processor)
   \<Rightarrow> raw_message list \<Rightarrow> media_processor
   \<Rightarrow> (int \<times> (error + string option)) list \<times> media_processor" where
  "results_in_order task msgs mp =
     foldl (\<lambda>(rs, p) m. (rs @ [(msg_id m, fst (task m p))], snd (task m p))) ([], mp) msgs"

definition successes :: "(int \<times> (error + string option)) list \<Rightarrow> (int \<times> string) list" where
  "successes rs =
     concat (map (\<lambda>(i, r). case r of Inr (Some h) \<Rightarrow> if h \<noteq> [] then [(i, h)] else [] | _ \<Rightarrow> [])
       rs)"

definition add_all_media ::
  "(int \<times> topic_data) list \<Rightarrow> int \<Rightarrow> (int \<times> string) list \<Rightarrow> (int \<times> topic_data) list" where
  "add_all_media topics topic_id found =
     foldl (\<lambda>ts (i, h). add_media_to_message ts topic_id i h) topics found"

text \<open>Records and topics for the examples of the final rendering.\<close>

definition example_record :: "int \<Rightarrow> message_data" where
  "example_record i =
     single_message_data example_library example_texts cfg_plain render_plain 3
       (plain_message i i ''x'')"

definition unsorted_topics :: "(int \<times> topic_data) list" where
  "unsorted_topics =
     [(3, \<lparr>td_id = 3, title = ''c'',
          messages = [example_record 2, example_record 4, example_record 1]\<rparr>),
      (1, \<lparr>td_id = 1, title = ''a'', messages = []\<rparr>),
      (2, \<lparr>td_id = 2, title = ''b'', messages = [example_record 7]\<rparr>)]"

section \<open>Notions used by the theorem about the empty export\<close>

text \<open>
  The number of messages that \<^verbatim>\<open>process_messages_streaming\<close> counts after filtering, the
  arguments that \<^verbatim>\<open>render_empty\<close> passes to the template, and two worlds in which every
  step outside the program succeeds: a plain chat and a forum with two topics, each
  holding one message.
\<close>

definition filtered_message_count :: "library \<Rightarrow> export_config \<Rightarrow> raw_message list \<Rightarrow> nat" where
  "filtered_message_count lib cfg all_messages =
     (let (grouped_messages, single_messages) = group_messages all_messages;
          (filtered_grouped, filtered_single, excluded_count) =
             filter_grouped_messages lib cfg grouped_messages single_messages
      in sum_list (map (\<lambda>(g, ms). length ms) filtered_grouped) + length filtered_single)"

definition empty_arguments :: "texts \<Rightarrow> entity \<Rightarrow> template_arguments" where
  "empty_arguments txts ent =
     \<lparr>ta_title = txt_archive txts @ entity_name ent @ txt_empty_suffix txts, ta_topics = [],
      ta_empty_message = Some (txt_all_filtered txts)\<rparr>"

definition quiet_world :: world where
  "quiet_world =
     \<lparr>setup_directories_ok = True, client_start_ok = True,
      resolve_chat = Inr \<lparr>entity_id = 5, entity_name = ''chat''\<rparr>,
      forum_topics_response = RPCError,
      iter_messages = (\<lambda>topic. Inr [plain_message 1 10 ''hello'']),
      download_file = download_ok,
      template = (\<lambda>args. Some (ta_title args)),
      write_text_ok = (\<lambda>html. True), copy_required_files_ok = True\<rparr>"

definition quiet_forum :: world where
  "quiet_forum = quiet_world\<lparr>forum_topics_response := ForumTopics [(10, ''News''), (11, ''Talk'')]\<rparr>"

section \<open>Texts without nested links\<close>

text \<open>
  A text is plain when no link can begin in it: it consists of characters other than
  \<^verbatim>\<open><\<close> and of tags, each a \<^verbatim>\<open><\<close> with the characters up to the next \<^verbatim>\<open><\<close>, that
  cannot be the beginning of a link whatever follows. A text is unnested when it consists
  of such characters and tags and of complete links: a link is a piece that one of the
  patterns matches as a whole, whatever follows it, whose only \<^verbatim>\<open><\<close> are its first
  character, those of the tags in its link text, and that of its closing tag.
\<close>

definition example_html :: string where
  \<open>example_html =
     ''see <b>it</b> <a href="https://t.me/c/1/2">m</a><a href="https://t.me/c/9/7/8" class="k">q</a>''\<close>

inductive plain_html :: "string \<Rightarrow> bool" where
  plain_Nil: "plain_html []"
| plain_char: "c \<noteq> CHR ''<'' \<Longrightarrow> plain_html s \<Longrightarrow> plain_html (c # s)"
| plain_tag: "CHR ''<'' \<notin> set u \<Longrightarrow> (\<And>t. match_link_prefix (CHR ''<'' # u @ t) = None) \<Longrightarrow>
     plain_html s \<Longrightarrow> plain_html (CHR ''<'' # u @ s)"

inductive unnested :: "string \<Rightarrow> bool" where
  unnested_Nil: "unnested []"
| unnested_char: "c \<noteq> CHR ''<'' \<Longrightarrow> unnested s \<Longrightarrow> unnested (c # s)"
| unnested_tag: "CHR ''<'' \<notin> set u \<Longrightarrow> (\<And>t. match_link_prefix (CHR ''<'' # u @ t) = None) \<Longrightarrow>
     unnested s \<Longrightarrow> unnested (CHR ''<'' # u @ s)"
| unnested_forum_link:
    "(\<And>t. FORUM_MESSAGE_LINK_PATTERN (w @ t) = Some ((chat, topic, msg, attrs, body), t)) \<Longrightarrow>
     plain_html (tl w) \<Longrightarrow> plain_html body \<Longrightarrow>
     CHR ''<'' \<notin> set attrs \<Longrightarrow> CHR ''<'' \<notin> set topic \<Longrightarrow> CHR ''<'' \<notin> set msg \<Longrightarrow>
     unnested s \<Longrightarrow> unnested (w @ s)"
| unnested_link:
    "(\<And>t. REGULAR_MESSAGE_LINK_PATTERN (w @ t) = Some ((chat, msg, attrs, body), t)) \<Longrightarrow>
     plain_html (tl w) \<Longrightarrow> plain_html body \<Longrightarrow>
     CHR ''<'' \<notin> set attrs \<Longrightarrow> CHR ''<'' \<notin> set msg \<Longrightarrow>
     unnested s \<Longrightarrow> unnested (w @ s)"

text \<open>
  A piece of text \<open>seg\<close> that each pass of the rewriter handles on its own, whatever
  follows, and that is left alone once it has been handled.
\<close>

definition settles :: "int option \<Rightarrow> string \<Rightarrow> bool" where
  "settles cur seg =
     (\<exists>s1 s2 s3.
        (\<forall>t. sub FORUM_MESSAGE_LINK_PATTERN (replace_forum_message_link cur) (seg @ t)
               = s1 @ sub FORUM_MESSAGE_LINK_PATTERN (replace_forum_message_link cur) t)
      \<and> (\<forall>t. sub FORUM_TOPIC_LINK_PATTERN (replace_forum_topic_link cur) (s1 @ t)
               = s2 @ sub FORUM_TOPIC_LINK_PATTERN (replace_forum_topic_link cur) t)
      \<and> (\<forall>t. sub FORUM_MESSAGE_LINK_PATTERN (replace_forum_message_link cur) (s2 @ t)
               = s2 @ sub FORUM_MESSAGE_LINK_PATTERN (replace_forum_message_link cur) t)
      \<and> (\<forall>t. sub FORUM_TOPIC_LINK_PATTERN (replace_forum_topic_link cur) (s2 @ t)
               = s2 @ sub FORUM_TOPIC_LINK_PATTERN (replace_forum_topic_link cur) t)
      \<and> (\<forall>t. sub REGULAR_MESSAGE_LINK_PATTERN (replace_regular_message_link cur) (seg @ t)
               = s3 @ sub REGULAR_MESSAGE_LINK_PATTERN (replace_regular_message_link cur) t)
      \<and> (\<forall>t. sub REGULAR_MESSAGE_LINK_PATTERN (replace_regular_message_link cur) (s3 @ t)
               = s3 @ sub REGULAR_MESSAGE_LINK_PATTERN (replace_regular_message_link cur) t))"

section \<open>Theorems about the content filter\<close>

lemma any_substring_iff:
  "any_substring lib cs t subs = (\<exists>s \<in> set subs. py_in (fold_case lib cs s) t)"
  by (induction subs) (auto simp: fold_case_def Let_def)

lemma contains_any_substring_iff:
  "txt \<noteq> [] \<Longrightarrow>
   contains_any_substring lib cfg txt subs = body_matches lib (filter_case_sensitive cfg) txt (set subs)"
  by (auto simp: contains_any_substring_def body_matches_def any_substring_iff fold_case_def)

text \<open>
  C1. The filter's admits operation is exactly the six-rule reference definition: a
  service message is admitted; with both sets empty every message is admitted; a message
  without a body is admitted iff the include set is empty; a body that matches no include
  member is rejected; a body that matches an exclude member is rejected, also when an
  include member matches; every other message is admitted.
\<close>

theorem should_include_raw_message_refines_spec:
  "should_include_raw_message lib cfg m =
     admits_spec lib (filter_case_sensitive cfg) (set (filter_include_substrings cfg))
       (set (filter_exclude_substrings cfg)) m"
proof (cases "message m")
  case None
  then show ?thesis
    by (simp add: should_include_raw_message_def admits_spec_def has_body_def)
next
  case (Some b)
  show ?thesis
  proof (cases "b = []")
    case True
    with Some show ?thesis
      by (simp add: should_include_raw_message_def admits_spec_def has_body_def)
  next
    case False
    with Some show ?thesis
      by (simp add: should_include_raw_message_def admits_spec_def has_body_def body_of_def
          contains_any_substring_iff)
  qed
qed

section \<open>Theorems about group-aware filtering\<close>

lemma group_passes_filter_iff:
  "group_passes_filter lib cfg ms = (\<exists>m \<in> set ms. should_include_raw_message lib cfg m)"
  by (induction ms) auto

lemma dict_set_fresh: "k \<notin> fst ` set d \<Longrightarrow> dict_set k v d = d @ [(k, v)]"
  by (induction d) auto

lemma filter_groups_loop_eq:
  "distinct (map fst (acc @ gs)) \<Longrightarrow>
   filter_groups_loop lib cfg gs acc n =
     (acc @ filter (\<lambda>(g, ms). \<exists>m \<in> set ms. should_include_raw_message lib cfg m) gs,
      n + dropped_album_messages lib cfg gs)"
proof (induction gs arbitrary: acc n)
  case Nil
  then show ?case by (simp add: dropped_album_messages_def)
next
  case (Cons p gs)
  obtain g ms where p: "p = (g, ms)" by (cases p)
  show ?case
  proof (cases "group_passes_filter lib cfg ms")
    case True
    from Cons.prems p have fresh: "g \<notin> fst ` set acc" by auto
    from Cons.prems p have "distinct (map fst ((acc @ [(g, ms)]) @ gs))" by simp
    from Cons.IH [OF this] True fresh p show ?thesis
      by (auto simp: dict_set_fresh group_passes_filter_iff dropped_album_messages_def)
  next
    case False
    from Cons.prems p have "distinct (map fst (acc @ gs))" by simp
    from Cons.IH [OF this] False p show ?thesis
      by (auto simp: group_passes_filter_iff dropped_album_messages_def)
  qed
qed

lemma filter_singles_loop_eq:
  "filter_singles_loop lib cfg ms acc n =
     (acc @ filter (should_include_raw_message lib cfg) ms,
      n + length (filter (\<lambda>m. \<not> should_include_raw_message lib cfg m) ms))"
  by (induction ms arbitrary: acc n) auto

lemma filter_grouped_messages_eq:
  "distinct (map fst grouped) \<Longrightarrow>
   filter_grouped_messages lib cfg grouped singles =
     (filter (\<lambda>(g, ms). \<exists>m \<in> set ms. should_include_raw_message lib cfg m) grouped,
      filter (should_include_raw_message lib cfg) singles,
      dropped_album_messages lib cfg grouped
        + length (filter (\<lambda>m. \<not> should_include_raw_message lib cfg m) singles))"
  by (simp add: filter_grouped_messages_def filter_groups_loop_eq filter_singles_loop_eq)

lemma map_of_filter_distinct:
  "distinct (map fst xs) \<Longrightarrow> (k, v) \<in> set xs \<Longrightarrow>
   map_of (filter P xs) k = (if P (k, v) then Some v else None)"
proof (induction xs)
  case Nil
  then show ?case by simp
next
  case (Cons x xs)
  show ?case
  proof (cases "x = (k, v)")
    case True
    with Cons.prems have "k \<notin> fst ` set xs" by auto
    then have "map_of (filter P xs) k = None"
      by (auto simp: map_of_eq_None_iff)
    with True show ?thesis by simp
  next
    case False
    with Cons.prems have in_xs: "(k, v) \<in> set xs" and d: "distinct (map fst xs)" by auto
    from in_xs Cons.prems have "fst x \<noteq> k" by (cases x) force
    with Cons.IH [OF d in_xs] show ?thesis by (cases x) auto
  qed
qed

text \<open>
  C2. For every album of the grouped dictionary and every filter configuration: the
  album is in the filtered dictionary iff at least one member passes the filter on its
  own; a kept album is stored under its group id with exactly its input member list; a
  dropped album has no entry, and the excluded count is the number of messages of all
  dropped albums plus the number of rejected singles. The kept albums keep their order.
\<close>

theorem filter_grouped_messages_album:
  assumes "distinct (map fst grouped)"
    and "(gid, members) \<in> set grouped"
    and "filter_grouped_messages lib cfg grouped singles = (filtered_grouped, filtered_single, excluded)"
  shows "map_of filtered_grouped gid =
           (if \<exists>m \<in> set members. should_include_raw_message lib cfg m then Some members else None)
         \<and> filtered_grouped =
             filter (\<lambda>(g, ms). \<exists>m \<in> set ms. should_include_raw_message lib cfg m) grouped
         \<and> excluded = dropped_album_messages lib cfg grouped
             + length (filter (\<lambda>m. \<not> should_include_raw_message lib cfg m) singles)"
proof -
  from assms(1,3) have fg: "filtered_grouped =
      filter (\<lambda>(g, ms). \<exists>m \<in> set ms. should_include_raw_message lib cfg m) grouped"
    and ex: "excluded = dropped_album_messages lib cfg grouped
        + length (filter (\<lambda>m. \<not> should_include_raw_message lib cfg m) singles)"
    by (simp_all add: filter_grouped_messages_eq)
  from map_of_filter_distinct [OF assms(1,2)] fg
  have "map_of filtered_grouped gid =
      (if \<exists>m \<in> set members. should_include_raw_message lib cfg m then Some members else None)"
    by simp
  with fg ex show ?thesis by simp
qed

section \<open>Concrete runs of the content filter\<close>

lemmas filter_eval =
  should_include_raw_message_def cfg_bug_def plain_message_def contains_any_substring_def
  example_library_def lower_char_def

theorem should_include_raw_message_refines_spec_witness:
  "admits_spec example_library False {''bug''} {''wontfix''}
     (plain_message 1 100 ''A BUG here'')
   \<and> \<not> admits_spec example_library False {''bug''} {''wontfix''}
         (plain_message 2 101 ''bug, WontFix'')"
  using should_include_raw_message_refines_spec
      [of example_library cfg_bug "plain_message 1 100 ''A BUG here''"]
    should_include_raw_message_refines_spec
      [of example_library cfg_bug "plain_message 2 101 ''bug, WontFix''"]
  by (simp add: filter_eval)

theorem filter_grouped_messages_album_witness:
  "distinct (map fst example_albums)
   \<and> (7, [plain_message 1 100 ''photo'', plain_message 2 100 ''a bug'']) \<in> set example_albums
   \<and> filter_grouped_messages example_library cfg_bug example_albums [plain_message 5 102 ''z'']
       = ([(7, [plain_message 1 100 ''photo'', plain_message 2 100 ''a bug''])], [], 3)
   \<and> map_of [(7, [plain_message 1 100 ''photo'', plain_message 2 100 ''a bug''])] 7
       = Some [plain_message 1 100 ''photo'', plain_message 2 100 ''a bug'']
   \<and> dropped_album_messages example_library cfg_bug example_albums = 2"
proof -
  have h1: "distinct (map fst example_albums)"
    by (simp add: example_albums_def)
  have h2: "(7, [plain_message 1 100 ''photo'', plain_message 2 100 ''a bug''])
      \<in> set example_albums"
    by (simp add: example_albums_def)
  have h3: "filter_grouped_messages example_library cfg_bug example_albums
        [plain_message 5 102 ''z'']
      = ([(7, [plain_message 1 100 ''photo'', plain_message 2 100 ''a bug''])], [], 3)"
    by (simp add: filter_grouped_messages_def example_albums_def filter_eval)
  have nz: "\<not> should_include_raw_message example_library cfg_bug (plain_message 5 102 ''z'')"
    by (simp add: filter_eval)
  from filter_grouped_messages_album [OF h1 h2 h3] nz h1 h2 h3 show ?thesis
    by simp
qed

section \<open>Theorems about the text pass\<close>

lemma map_of_dict_set: "map_of (dict_set k v d) = (map_of d)(k \<mapsto> v)"
  by (induction d) (auto simp: fun_eq_iff)

lemma set_dict_set: "set (dict_set k v d) \<subseteq> insert (k, v) (set d)"
  by (induction d) auto

lemma messages_in_ensure_topic:
  "messages_in (ensure_topic txts tid topics) tid' = messages_in topics tid'"
  by (auto simp: messages_in_def ensure_topic_def map_of_dict_set split: option.splits)

lemma ensure_topic_present: "map_of (ensure_topic txts tid topics) tid \<noteq> None"
  by (auto simp: ensure_topic_def map_of_dict_set split: option.splits)

lemma append_message_ensure_topic:
  "\<exists>topics'. append_message tid r (ensure_topic txts tid topics) = Some topics'
     \<and> messages_in topics' tid = messages_in topics tid @ [r]
     \<and> (\<forall>tid'. tid' \<noteq> tid \<longrightarrow> messages_in topics' tid' = messages_in topics tid')"
proof -
  obtain t where t: "map_of (ensure_topic txts tid topics) tid = Some t"
    using ensure_topic_present [of txts tid topics] by auto
  then have m: "messages t = messages_in topics tid"
    using messages_in_ensure_topic [of txts tid topics tid] by (simp add: messages_in_def)
  show ?thesis
    using t m messages_in_ensure_topic [of txts tid topics]
    by (auto simp: append_message_def messages_in_def map_of_dict_set)
qed

text \<open>
  C10. For every album, the text pass appends one record whose date, sender label,
  service flag and description, reply linkage, skip reason and reactions are those of
  the record the first member alone would give; the later members contribute only their
  rendered text (and, in the media pass, their media).
\<close>

theorem album_metadata_from_first_member:
  "\<exists>topics' r. process_message_group_text_only lib txts cfg render (first_msg # rest) topics topic_id
       = Some topics'
     \<and> messages_in topics' topic_id = messages_in topics topic_id @ [r]
     \<and> md_id r = msg_id first_msg
     \<and> metadata r = metadata (single_message_data lib txts cfg render topic_id first_msg)
     \<and> html_content r = join ''<br>'' (filter (\<lambda>t. t \<noteq> []) (map render (first_msg # rest)))"
proof -
  let ?r = "group_message_data lib txts cfg render topic_id first_msg (first_msg # rest)"
  obtain topics' where
    "append_message topic_id ?r (ensure_topic txts topic_id topics) = Some topics'"
    "messages_in topics' topic_id = messages_in topics topic_id @ [?r]"
    using append_message_ensure_topic [of topic_id ?r txts topics] by blast
  moreover have "md_id ?r = msg_id first_msg"
    by (simp add: group_message_data_def Let_def split_beta)
  moreover have "metadata ?r = metadata (single_message_data lib txts cfg render topic_id first_msg)"
    by (simp add: group_message_data_def single_message_data_def metadata_def Let_def split_beta)
  moreover have "html_content ?r = join ''<br>'' (filter (\<lambda>t. t \<noteq> []) (map render (first_msg # rest)))"
    by (simp add: group_message_data_def Let_def split_beta)
  ultimately show ?thesis
    by (auto simp: process_message_group_text_only_def)
qed

lemmas text_eval =
  plain_message_def album_message_def reacted_reply_message_def example_library_def
  example_texts_def cfg_plain_def render_plain_def single_message_data_def
  group_message_data_def analyze_service_message_def get_reply_info_def get_skip_reason_def
  extract_reactions_def format_message_date_def format_sender_name_def metadata_def

theorem album_metadata_from_first_member_witness:
  "\<exists>topics' r. process_message_group_text_only example_library example_texts cfg_plain render_plain
        [album_message 1 100 7 ''cap'', reacted_reply_message 2 100 7] [] 1 = Some topics'
     \<and> messages_in topics' 1 = [r] \<and> md_id r = 1 \<and> md_reactions r = [] \<and> \<not> is_reply r
     \<and> html_content r = ''cap''"
  using album_metadata_from_first_member [of example_library example_texts cfg_plain render_plain
      "album_message 1 100 7 ''cap''" "[reacted_reply_message 2 100 7]" "[]" 1]
  by (auto simp: text_eval messages_in_def)

lemma group_append_nonempty:
  "\<forall>(k, v) \<in> set grouped. v \<noteq> [] \<Longrightarrow> \<forall>(k, v) \<in> set (group_append g m grouped). v \<noteq> []"
  using set_dict_set [of g _ grouped]
  by (fastforce simp: group_append_def split: option.splits)

lemma group_loop_nonempty:
  "group_loop ms grouped singles = (g', s') \<Longrightarrow> \<forall>(k, v) \<in> set grouped. v \<noteq> [] \<Longrightarrow>
   \<forall>(k, v) \<in> set g'. v \<noteq> []"
proof (induction ms arbitrary: grouped singles)
  case Nil
  then show ?case by simp
next
  case (Cons m ms)
  show ?case
  proof (cases "grouped_id m")
    case None
    with Cons show ?thesis by simp
  next
    case (Some g)
    show ?thesis
    proof (cases "g = 0")
      case True
      with Some Cons show ?thesis by simp
    next
      case False
      with Some Cons.prems(1)
      have "group_loop ms (group_append g m grouped) singles = (g', s')" by simp
      from Cons.IH [OF this group_append_nonempty [OF Cons.prems(2)]] show ?thesis .
    qed
  qed
qed

lemma group_messages_sorted:
  assumes "(g, ms) \<in> set (fst (group_messages all_messages))"
  shows "ms \<noteq> [] \<and> sorted (map msg_id ms)"
proof -
  obtain g' s' where gl: "group_loop all_messages [] [] = (g', s')"
    by (cases "group_loop all_messages [] []")
  from group_loop_nonempty [OF gl] have ne: "\<forall>(k, v) \<in> set g'. v \<noteq> []" by simp
  from assms gl obtain ms0 where ms0: "(g, ms0) \<in> set g'" "ms = sort_key msg_id ms0"
    by (auto simp: group_messages_def)
  from ms0(1) ne have "ms0 \<noteq> []" by auto
  then have "length ms \<noteq> 0" using ms0(2) by simp
  then have "ms \<noteq> []" by auto
  moreover have "sorted (map msg_id ms)" using ms0(2) by (simp add: sorted_sort_key)
  ultimately show ?thesis by simp
qed

lemma add_media_loop_target:
  "\<forall>x \<in> set pre. \<not> media_target i x \<Longrightarrow> media_target i e \<Longrightarrow>
   add_media_loop (pre @ e # post) i h = pre @ append_media_to_content e h # post"
  by (induction pre) (auto simp: media_target_def)

lemma add_media_loop_none:
  "\<forall>x \<in> set es. \<not> media_target i x \<Longrightarrow> add_media_loop es i h = es"
  by (induction es) (auto simp: media_target_def)

text \<open>
  C9, as amended. For an album produced by the grouper, the identifier of the record is
  the id of the first member, which is the lowest id of the album, and the member-id list
  holds the ids of all members; for a single message the identifier is the message id
  and the member-id list is empty. The media pass gives the media to the first record
  of the topic whose identifier is the message id or whose member-id list contains it,
  and changes nothing when there is no such record.
\<close>

theorem display_record_identity:
  assumes "(g, first_msg # rest) \<in> set (fst (group_messages all_messages))"
  shows "md_id (group_message_data lib txts cfg render topic_id first_msg (first_msg # rest))
           = msg_id first_msg
     \<and> (\<forall>m \<in> set (first_msg # rest). msg_id first_msg \<le> msg_id m)
     \<and> grouped_message_ids
           (group_message_data lib txts cfg render topic_id first_msg (first_msg # rest))
         = map msg_id (first_msg # rest)
     \<and> md_id (single_message_data lib txts cfg render topic_id msg) = msg_id msg
     \<and> grouped_message_ids (single_message_data lib txts cfg render topic_id msg) = []
     \<and> ((\<forall>x \<in> set pre. \<not> media_target i x) \<and> media_target i e \<longrightarrow>
          add_media_loop (pre @ e # post) i h = pre @ append_media_to_content e h # post)
     \<and> ((\<forall>x \<in> set es. \<not> media_target i x) \<longrightarrow> add_media_loop es i h = es)"
proof -
  from group_messages_sorted [OF assms] have "sorted (map msg_id (first_msg # rest))" by simp
  then have low: "\<forall>m \<in> set (first_msg # rest). msg_id first_msg \<le> msg_id m" by auto
  show ?thesis
    using low add_media_loop_target [of pre i e post h] add_media_loop_none [of es i h]
    by (simp add: group_message_data_def single_message_data_def Let_def split_beta)
qed

theorem display_record_identity_witness:
  "(7, [album_message 1 100 7 ''a'', album_message 2 100 7 ''b''])
     \<in> set (fst (group_messages
         [album_message 2 100 7 ''b'', album_message 1 100 7 ''a'', plain_message 5 101 ''hi'']))
   \<and> md_id (group_message_data example_library example_texts cfg_plain render_plain 1
         (album_message 1 100 7 ''a'') [album_message 1 100 7 ''a'', album_message 2 100 7 ''b''])
       = 1
   \<and> grouped_message_ids (group_message_data example_library example_texts cfg_plain
         render_plain 1 (album_message 1 100 7 ''a'')
         [album_message 1 100 7 ''a'', album_message 2 100 7 ''b'']) = [1, 2]
   \<and> add_media_loop
         [single_message_data example_library example_texts cfg_plain render_plain 1
            (plain_message 5 101 ''hi''),
          group_message_data example_library example_texts cfg_plain render_plain 1
            (album_message 1 100 7 ''a'') [album_message 1 100 7 ''a'', album_message 2 100 7 ''b'']]
         2 ''<img>''
       = [single_message_data example_library example_texts cfg_plain render_plain 1
            (plain_message 5 101 ''hi''),
          append_media_to_content
            (group_message_data example_library example_texts cfg_plain render_plain 1
               (album_message 1 100 7 ''a'')
               [album_message 1 100 7 ''a'', album_message 2 100 7 ''b''])
            ''<img>'']"
proof -
  have h: "(7, [album_message 1 100 7 ''a'', album_message 2 100 7 ''b''])
     \<in> set (fst (group_messages
         [album_message 2 100 7 ''b'', album_message 1 100 7 ''a'', plain_message 5 101 ''hi'']))"
    by (simp add: group_messages_def group_append_def album_message_def plain_message_def)
  from display_record_identity [OF h, where lib = example_library and txts = example_texts
      and cfg = cfg_plain and render = render_plain and topic_id = 1
      and pre = "[single_message_data example_library example_texts cfg_plain render_plain 1
            (plain_message 5 101 ''hi'')]"
      and i = 2
      and e = "group_message_data example_library example_texts cfg_plain render_plain 1
            (album_message 1 100 7 ''a'') [album_message 1 100 7 ''a'', album_message 2 100 7 ''b'']"
      and post = "[]" and h = "''<img>''"]
  show ?thesis using h
    by (simp add: media_target_def group_message_data_def single_message_data_def Let_def
        split_beta album_message_def plain_message_def)
qed

text \<open>
  The claim as stated fails for a single message: its member-id list is not the list of
  its own id.
\<close>

theorem single_record_member_ids_counterexample:
  "set (grouped_message_ids (single_message_data example_library example_texts cfg_plain
      render_plain 1 (plain_message 5 100 ''hi''))) \<noteq> {5}"
  by (simp add: single_message_data_def Let_def split_beta)

section \<open>Theorems about the media pipeline\<close>

lemmas media_eval =
  process_media_def process_media_body_def download_media_def generate_unique_filename_def
  get_next_global_index_def get_media_base_name_def get_file_extension_def get_media_type_def
  media_document_def should_skip_media_def exceeds_size_limit_def get_file_size_def
  generate_media_html_def photo_message_def plain_message_def cfg_plain_def example_library_def
  example_texts_def download_ok_def fresh_processor_def str_int_def

lemma retry_on_error_three:
  "retry_on_error 3 0 f s =
     (case f s of
        (Inr r, s') \<Rightarrow> (Inr r, s')
      | (Inl e, s') \<Rightarrow>
          (case f s' of
             (Inr r, s'') \<Rightarrow> (Inr r, s'')
           | (Inl e, s'') \<Rightarrow>
               (case f s'' of (Inr r, s3) \<Rightarrow> (Inr r, s3) | (Inl e, s3) \<Rightarrow> (Inl e, s3))))"
  by (simp add: retry_on_error.simps [of 3] split: prod.splits sum.splits)

lemma str_nat_small:
  "str_nat (Suc 0) = ''1''" "str_nat (Suc (Suc 0)) = ''2''" "str_nat 7 = ''7''"
  by (simp_all add: str_nat.simps)

text \<open>
  C5. Download is not deduplicated per message. The photo message 7 is processed twice by
  one processor, and the download succeeds both times. The second processing takes a new
  global index, so it derives \<^verbatim>\<open>msg_7_2_photo.jpg\<close> where the first derived
  \<^verbatim>\<open>msg_7_1_photo.jpg\<close>; the name is not in the set of downloaded files, the download
  runs a second time, and the second processing returns media markup again.
\<close>

theorem same_message_downloads_twice:
  "(let (r1, mp1) = process_media example_library example_texts cfg_plain download_ok
                      (photo_message 7 100) fresh_processor;
        (r2, mp2) = process_media example_library example_texts cfg_plain download_ok
                      (photo_message 7 100) mp1
    in download_calls mp2 = [(7, ''msg_7_1_photo.jpg''), (7, ''msg_7_2_photo.jpg'')]
       \<and> downloaded_files mp2 = {''msg_7_1_photo.jpg'', ''msg_7_2_photo.jpg''}
       \<and> r2 \<noteq> Inr None)"
  by (auto simp: media_eval retry_on_error_three str_nat_small Let_def)

lemma process_media_body_no_error:
  "\<exists>h mp'. process_media_body lib txts cfg download msg mp = (Inr h, mp')"
  by (auto simp: process_media_body_def split: prod.splits sum.splits)

lemma process_media_eq_body:
  "process_media lib txts cfg download msg mp = process_media_body lib txts cfg download msg mp"
proof -
  obtain h mp' where "process_media_body lib txts cfg download msg mp = (Inr h, mp')"
    using process_media_body_no_error by blast
  then show ?thesis
    by (simp add: process_media_def retry_on_error.simps [of 3 0])
qed

lemma process_media_no_error:
  "\<exists>h. fst (process_media lib txts cfg download msg mp) = Inr h"
  using process_media_body_no_error [of lib txts cfg download msg mp]
  by (auto simp: process_media_eq_body)

lemma process_media_failing:
  assumes "\<forall>f. download msg f = DownloadRaises"
  shows "fst (process_media lib txts cfg download msg mp) = Inr None"
  using assms
  by (simp add: process_media_eq_body process_media_body_def download_media_def Let_def
      split_beta)

lemma run_batch_append:
  "run_batch task (xs @ ys) mp =
     (fst (run_batch task xs mp) @ fst (run_batch task ys (snd (run_batch task xs mp))),
      snd (run_batch task ys (snd (run_batch task xs mp))))"
  by (induction xs arbitrary: mp) (simp_all add: split_beta Let_def)

lemma apply_results_append:
  "apply_results (r1 @ r2) topics tid = apply_results r2 (apply_results r1 topics tid) tid"
  by (induction r1 topics tid rule: apply_results.induct) (simp_all split: sum.splits option.splits)

lemma media_batches_flat:
  "0 < n \<Longrightarrow> media_batches task (batches n xs) topics tid mp =
     (apply_results (fst (run_batch task xs mp)) topics tid, snd (run_batch task xs mp))"
proof (induction n xs arbitrary: topics mp rule: batches.induct)
  case (1 n xs)
  show ?case
  proof (cases "xs = []")
    case True
    then show ?thesis by (simp add: batches.simps [of n "[]"])
  next
    case False
    have split: "xs = take n xs @ drop n xs" by simp
    have rb: "run_batch task xs mp =
      (fst (run_batch task (take n xs) mp)
         @ fst (run_batch task (drop n xs) (snd (run_batch task (take n xs) mp))),
       snd (run_batch task (drop n xs) (snd (run_batch task (take n xs) mp))))"
      using run_batch_append [of task "take n xs" "drop n xs" mp] by simp
    from False 1 show ?thesis
      by (simp add: batches.simps [of n xs] split_beta rb apply_results_append)
  qed
qed

lemma apply_results_filter:
  "apply_results (filter (\<lambda>(i, r). r \<noteq> Inr None) rs) topics tid = apply_results rs topics tid"
  by (induction rs topics tid rule: apply_results.induct) (simp_all split: sum.splits option.splits)

lemma run_batch_results:
  assumes "\<And>m mp. P m (fst (task m mp))"
  shows "list_all2 (\<lambda>m (i, r). i = msg_id m \<and> P m r) msgs (fst (run_batch task msgs mp))"
  using assms by (induction msgs arbitrary: mp) (simp_all add: split_beta Let_def)


lemma list_all2_right:
  "list_all2 R xs ys \<Longrightarrow> (\<And>x y. x \<in> set xs \<Longrightarrow> R x y \<Longrightarrow> S y) \<Longrightarrow> \<forall>y \<in> set ys. S y"
  by (induction rule: list_all2_induct) auto

lemma run_batch_snoc:
  "run_batch task (xs @ [m]) mp =
     (fst (run_batch task xs mp) @ [(msg_id m, fst (task m (snd (run_batch task xs mp))))],
      snd (task m (snd (run_batch task xs mp))))"
  by (simp add: run_batch_append split_beta Let_def)

lemma foldl_results_acc:
  "foldl (\<lambda>(rs, p) m. (rs @ [(msg_id m, fst (task m p))], snd (task m p))) (acc, mp) msgs
   = (acc @ fst (run_batch task msgs mp), snd (run_batch task msgs mp))"
  by (induction msgs arbitrary: acc mp) (simp_all add: split_beta Let_def)

lemma results_in_order_run_batch:
  "results_in_order task msgs mp = run_batch task msgs mp"
  by (simp add: results_in_order_def foldl_results_acc)

lemma apply_results_successes:
  "apply_results rs topics tid = add_all_media topics tid (successes rs)"
  by (induction rs topics tid rule: apply_results.induct)
     (simp_all add: add_all_media_def successes_def split: sum.splits option.splits)


lemma process_all_media_parallel_eq:
  assumes "0 < max_concurrent_downloads cfg"
  shows "process_all_media_parallel lib txts cfg download msgs topics tid mp
     = Inr (apply_results
              (fst (run_batch (process_media lib txts cfg download)
                 (filter (\<lambda>msg. media msg \<noteq> None \<and> \<not> should_skip_media cfg msg) msgs) mp))
              topics tid,
            snd (run_batch (process_media lib txts cfg download)
                 (filter (\<lambda>msg. media msg \<noteq> None \<and> \<not> should_skip_media cfg msg) msgs) mp))"
  using assms
  by (cases "filter (\<lambda>msg. media msg \<noteq> None \<and> \<not> should_skip_media cfg msg) msgs = []")
     (simp_all add: process_all_media_parallel_def media_batches_flat Let_def)

lemma process_media_attempt:
  assumes "media msg \<noteq> None" "\<not> should_skip_media cfg msg"
    and "generate_unique_filename lib mp0 msg = (name, mp1)" "name \<notin> downloaded_files mp1"
  shows "process_media lib txts cfg download msg mp0 =
     (case download msg name of
        Downloaded path \<Rightarrow>
          (Inr (Some (generate_media_html lib txts msg (relpath lib path))),
           mp1\<lparr>download_calls := download_calls mp1 @ [(msg_id msg, name)],
               downloaded_files := insert name (downloaded_files mp1)\<rparr>)
      | NoFile \<Rightarrow> (Inr None, mp1\<lparr>download_calls := download_calls mp1 @ [(msg_id msg, name)]\<rparr>)
      | DownloadRaises \<Rightarrow>
          (Inr None, mp1\<lparr>download_calls := download_calls mp1 @ [(msg_id msg, name)]\<rparr>))"
  using assms
  by (auto simp: process_media_eq_body process_media_body_def download_media_def Let_def
      split: download_result.splits)

text \<open>
  C8. A failing download is isolated. \<^verbatim>\<open>process_media\<close> never raises, and it returns
  \<^verbatim>\<open>None\<close> for a message whose download raises. For a message with admissible media whose
  file name is not yet in the set of downloaded names it attempts the download once, and
  gives markup if the download gives a file and \<^verbatim>\<open>None\<close> if it gives none or raises. With
  a positive batch size the media pass returns; its results are those of
  \<^verbatim>\<open>process_media\<close> on every admissible message, in order, each from the state its
  predecessor left, whatever the outcome of the others; and the topics it returns are the
  given ones with every result that carries markup added to its record, in order. So the
  record of a failed message keeps its text. If every download raises, the topics are
  returned unchanged.
\<close>

theorem media_download_failure_isolated:
  assumes "0 < max_concurrent_downloads cfg"
  shows "(\<exists>h. fst (process_media lib txts cfg download msg mp0) = Inr h)
     \<and> ((\<forall>f. download msg f = DownloadRaises) \<longrightarrow>
            fst (process_media lib txts cfg download msg mp0) = Inr None)
     \<and> (media msg \<noteq> None \<and> \<not> should_skip_media cfg msg
          \<and> generate_unique_filename lib mp0 msg = (name, mp1)
          \<and> name \<notin> downloaded_files mp1 \<longrightarrow>
        process_media lib txts cfg download msg mp0 =
          (case download msg name of
             Downloaded path \<Rightarrow>
               (Inr (Some (generate_media_html lib txts msg (relpath lib path))),
                mp1\<lparr>download_calls := download_calls mp1 @ [(msg_id msg, name)],
                    downloaded_files := insert name (downloaded_files mp1)\<rparr>)
           | NoFile \<Rightarrow>
               (Inr None, mp1\<lparr>download_calls := download_calls mp1 @ [(msg_id msg, name)]\<rparr>)
           | DownloadRaises \<Rightarrow>
               (Inr None, mp1\<lparr>download_calls := download_calls mp1 @ [(msg_id msg, name)]\<rparr>)))
     \<and> (let media_messages =
               filter (\<lambda>msg. media msg \<noteq> None \<and> \<not> should_skip_media cfg msg) msgs;
             (results, mp') =
               results_in_order (process_media lib txts cfg download) media_messages mp
         in process_all_media_parallel lib txts cfg download msgs topics topic_id mp
              = Inr (add_all_media topics topic_id (successes results), mp')
          \<and> list_all2
              (\<lambda>m (i, r). i = msg_id m \<and> (\<exists>h. r = Inr h)
                 \<and> ((\<forall>f. download m f = DownloadRaises) \<longrightarrow> r = Inr None))
              media_messages results)
     \<and> ((\<forall>m \<in> set msgs. \<forall>f. download m f = DownloadRaises) \<longrightarrow>
          (\<exists>mp'. process_all_media_parallel lib txts cfg download msgs topics topic_id mp
                   = Inr (topics, mp')))"
proof -
  let ?task = "process_media lib txts cfg download"
  let ?mm = "filter (\<lambda>msg. media msg \<noteq> None \<and> \<not> should_skip_media cfg msg) msgs"
  let ?rs = "fst (run_batch ?task ?mm mp)"
  let ?P = "\<lambda>m r. (\<exists>h. r = Inr h) \<and> ((\<forall>f. download m f = DownloadRaises) \<longrightarrow> r = Inr None)"
  have run: "process_all_media_parallel lib txts cfg download msgs topics topic_id mp
        = Inr (add_all_media topics topic_id (successes ?rs), snd (run_batch ?task ?mm mp))"
    using process_all_media_parallel_eq [OF assms] by (simp add: apply_results_successes)
  have each: "\<And>m mp. ?P m (fst (?task m mp))"
    using process_media_no_error process_media_failing by blast
  have rel: "list_all2 (\<lambda>m (i, r). i = msg_id m \<and> ?P m r) ?mm ?rs"
    by (rule run_batch_results [where P = ?P, OF each])
  have one: "\<exists>h. fst (process_media lib txts cfg download msg mp0) = Inr h"
    by (rule process_media_no_error)
  have two: "(\<forall>f. download msg f = DownloadRaises) \<longrightarrow>
            fst (process_media lib txts cfg download msg mp0) = Inr None"
    using process_media_failing by blast
  have three: "let media_messages = ?mm;
             (results, mp') = results_in_order ?task media_messages mp
         in process_all_media_parallel lib txts cfg download msgs topics topic_id mp
              = Inr (add_all_media topics topic_id (successes results), mp')
          \<and> list_all2 (\<lambda>m (i, r). i = msg_id m \<and> ?P m r) media_messages results"
    using run rel by (simp add: results_in_order_run_batch split_beta Let_def)
  have four: "(\<forall>m \<in> set msgs. \<forall>f. download m f = DownloadRaises) \<longrightarrow>
          (\<exists>mp'. process_all_media_parallel lib txts cfg download msgs topics topic_id mp
                   = Inr (topics, mp'))"
  proof
    assume all: "\<forall>m \<in> set msgs. \<forall>f. download m f = DownloadRaises"
    have "\<forall>y \<in> set ?rs. snd y = Inr None"
      by (rule list_all2_right [OF rel]) (use all in \<open>auto simp: split_beta\<close>)
    then have "successes ?rs = []"
      by (induction ?rs) (auto simp: successes_def)
    with run show "\<exists>mp'. process_all_media_parallel lib txts cfg download msgs topics topic_id mp
                   = Inr (topics, mp')" by (simp add: add_all_media_def)
  qed
  from one two three four process_media_attempt [of msg cfg lib mp0 name mp1 txts download]
  show ?thesis by blast
qed


lemma str_nat_12: "str_nat 1 = ''1''" "str_nat 2 = ''2''"
  by (simp_all add: str_nat.simps)

theorem media_download_failure_isolated_witness:
  \<open>0 < max_concurrent_downloads cfg_plain
   \<and> (\<forall>f. download_first_fails (photo_message 1 10) f = DownloadRaises)
   \<and> fst (process_media example_library example_texts cfg_plain download_first_fails
            (photo_message 1 10) fresh_processor) = Inr None
   \<and> process_all_media_parallel example_library example_texts cfg_plain download_first_fails
        [photo_message 1 10, photo_message 2 20] example_topics 1 fresh_processor
      = Inr ([(1, \<lparr>td_id = 1, title = ''Topic 1'',
            messages =
              [single_message_data example_library example_texts cfg_plain render_plain 1
                 ((photo_message 1 10)\<lparr>message := Some ''one'', msg_text := Some ''one''\<rparr>),
               (single_message_data example_library example_texts cfg_plain render_plain 1
                 ((photo_message 2 20)\<lparr>message := Some ''two'', msg_text := Some ''two''\<rparr>))
                \<lparr>html_content :=
                   ''two<br><img src="msg_2_2_photo.jpg" loading="lazy" alt="Image">''\<rparr>]\<rparr>)],
          \<lparr>downloaded_files = {''msg_2_2_photo.jpg''}, global_media_counter = 2,
           download_calls = [(1, ''msg_1_1_photo.jpg''), (2, ''msg_2_2_photo.jpg'')]\<rparr>)\<close>
proof -
  have h: "0 < max_concurrent_downloads cfg_plain" by (simp add: cfg_plain_def)
  have f: "\<forall>f. download_first_fails (photo_message 1 10) f = DownloadRaises"
    by (simp add: download_first_fails_def photo_message_def plain_message_def)
  note t = media_download_failure_isolated [OF h, where download = download_first_fails
      and msg = "photo_message 1 10" and msgs = "[photo_message 1 10, photo_message 2 20]"
      and lib = example_library and txts = example_texts and mp0 = fresh_processor
      and topics = example_topics and topic_id = 1 and mp = fresh_processor]
  from t f have one: "fst (process_media example_library example_texts cfg_plain
      download_first_fails (photo_message 1 10) fresh_processor) = Inr None" by blast
  from t have pass: "let media_messages =
        filter (\<lambda>msg. media msg \<noteq> None \<and> \<not> should_skip_media cfg_plain msg)
          [photo_message 1 10, photo_message 2 20];
      (results, mp') = results_in_order
         (process_media example_library example_texts cfg_plain download_first_fails)
         media_messages fresh_processor
    in process_all_media_parallel example_library example_texts cfg_plain download_first_fails
         [photo_message 1 10, photo_message 2 20] example_topics 1 fresh_processor
       = Inr (add_all_media example_topics 1 (successes results), mp')" 
    by (simp add: Let_def split_beta)
  show ?thesis
    using h f one pass
    by (simp add: results_in_order_def successes_def add_all_media_def media_eval
        retry_on_error_three str_nat_small str_nat_12 Let_def download_first_fails_def
        example_topics_def add_media_to_message_def single_message_data_def
        append_media_to_content_def render_plain_def split_beta)
qed

section \<open>Theorems about the order of the records\<close>

lemma filter_groups_loop_nonempty:
  "filter_groups_loop lib cfg gs acc n = (fg, n') \<Longrightarrow> \<forall>(k, v) \<in> set acc. v \<noteq> [] \<Longrightarrow>
   \<forall>(k, v) \<in> set fg. v \<noteq> []"
proof (induction gs arbitrary: acc n)
  case Nil
  then show ?case by simp
next
  case (Cons a gs)
  obtain g ms where a: "a = (g, ms)" by (cases a)
  show ?case
  proof (cases "group_passes_filter lib cfg ms")
    case True
    then have "ms \<noteq> []" by auto
    with Cons.prems(2) have "\<forall>(k, v) \<in> set (dict_set g ms acc). v \<noteq> []"
      using set_dict_set [of g ms acc] by fastforce
    with Cons.IH [of "dict_set g ms acc" n] Cons.prems(1) a True show ?thesis by simp
  next
    case False
    with Cons.IH [of acc "n + length ms"] Cons.prems a show ?thesis by simp
  qed
qed

lemma group_items_eq:
  "\<forall>(k, v) \<in> set g. v \<noteq> [] \<Longrightarrow>
   group_items g = Some (map (\<lambda>(k, ms). Group (date (hd ms)) ms) g)"
proof (induction g)
  case Nil
  then show ?case by simp
next
  case (Cons a g)
  obtain k ms where a: "a = (k, ms)" by (cases a)
  with Cons.prems obtain m rest where ms: "ms = m # rest" by (cases ms) auto
  from Cons have "group_items g = Some (map (\<lambda>(k, ms). Group (date (hd ms)) ms) g)" by simp
  with a ms show ?case by simp
qed

lemma filter_grouped_messages_nonempty:
  assumes "filter_grouped_messages lib cfg g s = (fg, fs, n)"
  shows "\<forall>(k, v) \<in> set fg. v \<noteq> []"
proof -
  obtain n0 where "filter_groups_loop lib cfg g [] 0 = (fg, n0)"
    using assms by (auto simp: filter_grouped_messages_def split: prod.splits)
  from filter_groups_loop_nonempty [OF this] show ?thesis by simp
qed

lemma sorted_items_of_eq:
  assumes "group_messages all_messages = (g, s)"
    and "filter_grouped_messages lib cfg g s = (fg, fs, n)"
  shows "sorted_items_of lib cfg all_messages
     = Some (sort_key item_timestamp
         (map (\<lambda>(k, ms). Group (date (hd ms)) ms) fg @ map (\<lambda>m. Single (date m) m) fs))"
  using assms group_items_eq [OF filter_grouped_messages_nonempty [OF assms(2)]]
  by (simp add: sorted_items_of_def create_sorted_items_def)

lemma well_dated_items:
  assumes "\<forall>(k, v) \<in> set fg. v \<noteq> []"
  shows "\<forall>i \<in> set (sort_key item_timestamp
         (map (\<lambda>(k, ms). Group (date (hd ms)) ms) fg @ map (\<lambda>m. Single (date m) m) fs)).
       well_dated i"
  using assms by auto

lemma text_pass_records:
  "\<exists>topics'. text_pass lib txts cfg render items topics tid = Some topics'
     \<and> messages_in topics' tid
         = messages_in topics tid @ concat (map (item_record lib txts cfg render tid) items)"
proof (induction items arbitrary: topics)
  case Nil
  then show ?case by simp
next
  case (Cons i items)
  show ?case
  proof (cases i)
    case (Group ts ms)
    show ?thesis
    proof (cases ms)
      case Nil
      with Group Cons [of topics] show ?thesis
        by (simp add: process_message_group_text_only_def)
    next
      case (Cons m rest)
      let ?r = "group_message_data lib txts cfg render tid m (m # rest)"
      obtain t1 where t1: "append_message tid ?r (ensure_topic txts tid topics) = Some t1"
        "messages_in t1 tid = messages_in topics tid @ [?r]"
        using append_message_ensure_topic [of tid ?r txts topics] by blast
      from Cons.IH [of t1] obtain t2 where
        "text_pass lib txts cfg render items t1 tid = Some t2"
        "messages_in t2 tid
           = messages_in t1 tid @ concat (map (item_record lib txts cfg render tid) items)"
        by blast
      with t1 Group Cons show ?thesis
        by (simp add: process_message_group_text_only_def)
    qed
  next
    case (Single ts m)
    let ?r = "single_message_data lib txts cfg render tid m"
    obtain t1 where t1: "append_message tid ?r (ensure_topic txts tid topics) = Some t1"
      "messages_in t1 tid = messages_in topics tid @ [?r]"
      using append_message_ensure_topic [of tid ?r txts topics] by blast
    from Cons.IH [of t1] obtain t2 where
      "text_pass lib txts cfg render items t1 tid = Some t2"
      "messages_in t2 tid
         = messages_in t1 tid @ concat (map (item_record lib txts cfg render tid) items)"
      by blast
    with t1 Single show ?thesis
      by (simp add: process_single_message_text_only_def)
  qed
qed

lemma text_pass_other_topics:
  "text_pass lib txts cfg render items topics tid = Some topics' \<Longrightarrow> other \<noteq> tid \<Longrightarrow>
   messages_in topics' other = messages_in topics other"
proof (induction items arbitrary: topics)
  case Nil
  then show ?case by simp
next
  case (Cons i items)
  show ?case
  proof (cases i)
    case (Group ts ms)
    show ?thesis
    proof (cases ms)
      case Nil
      with Group Cons show ?thesis by (simp add: process_message_group_text_only_def)
    next
      case (Cons m rest)
      let ?r = "group_message_data lib txts cfg render tid m (m # rest)"
      obtain t1 where t1: "append_message tid ?r (ensure_topic txts tid topics) = Some t1"
        "\<forall>tid'. tid' \<noteq> tid \<longrightarrow> messages_in t1 tid' = messages_in topics tid'"
        using append_message_ensure_topic [of tid ?r txts topics] by blast
      with Group Cons Cons.prems Cons.IH [of t1] show ?thesis
        by (simp add: process_message_group_text_only_def)
    qed
  next
    case (Single ts m)
    let ?r = "single_message_data lib txts cfg render tid m"
    obtain t1 where t1: "append_message tid ?r (ensure_topic txts tid topics) = Some t1"
      "\<forall>tid'. tid' \<noteq> tid \<longrightarrow> messages_in t1 tid' = messages_in topics tid'"
      using append_message_ensure_topic [of tid ?r txts topics] by blast
    with Single Cons.prems Cons.IH [of t1] show ?thesis
      by (simp add: process_single_message_text_only_def)
  qed
qed

lemma item_record_date:
  "well_dated i \<Longrightarrow>
   map md_date (item_record lib txts cfg render tid i) = [format_message_date lib (item_timestamp i)]"
  by (cases i; cases "case i of Group ts ms \<Rightarrow> ms | Single ts m \<Rightarrow> []")
     (auto simp: group_message_data_def single_message_data_def Let_def split_beta)

lemma item_records_dates:
  "\<forall>i \<in> set items. well_dated i \<Longrightarrow>
   map md_date (concat (map (item_record lib txts cfg render tid) items))
     = map (\<lambda>i. format_message_date lib (item_timestamp i)) items"
  by (induction items) (simp_all add: item_record_date)


lemma add_media_loop_without_content:
  "map without_content (add_media_loop es i h) = map without_content es"
  by (induction es) (auto simp: without_content_def append_media_to_content_def)

lemma add_media_to_message_without_content:
  "map without_content (messages_in (add_media_to_message topics tid i h) tid')
     = map without_content (messages_in topics tid')"
  by (auto simp: add_media_to_message_def messages_in_def map_of_dict_set
      add_media_loop_without_content split: option.splits)

lemma apply_results_without_content:
  "map without_content (messages_in (apply_results rs topics tid) tid')
     = map without_content (messages_in topics tid')"
  by (induction rs topics tid rule: apply_results.induct)
     (simp_all add: add_media_to_message_without_content split: sum.splits option.splits)

lemma add_media_to_message_other_topics:
  "other \<noteq> tid \<Longrightarrow>
   messages_in (add_media_to_message topics tid i h) other = messages_in topics other"
  by (auto simp: add_media_to_message_def messages_in_def map_of_dict_set split: option.splits)

lemma apply_results_other_topics:
  "other \<noteq> tid \<Longrightarrow> messages_in (apply_results rs topics tid) other = messages_in topics other"
  by (induction rs topics tid rule: apply_results.induct)
     (simp_all add: add_media_to_message_other_topics split: sum.splits option.splits)

lemma sorted_descending:
  "sorted (rev (map md_id (sort_key (\<lambda>x. - md_id x) xs)))"
proof -
  have "sorted (map (\<lambda>x. - md_id x) (sort_key (\<lambda>x. - md_id x) xs))" by (rule sorted_sort_key)
  then show ?thesis
    by (simp add: sorted_wrt_rev sorted_wrt_map)
qed

lemma sorted_topics_loop_member:
  "t \<in> set (sorted_topics_loop ks topics) \<Longrightarrow>
   \<exists>k t0. map_of topics k = Some t0 \<and> messages t0 \<noteq> []
     \<and> t = t0\<lparr>messages := sort_key (\<lambda>x. - md_id x) (messages t0)\<rparr>"
  by (induction ks) (auto split: option.splits if_splits)

lemma sorted_topics_member:
  assumes "t \<in> set (sorted_topics topics)"
  shows "messages t \<noteq> [] \<and> sorted (rev (map md_id (messages t)))
     \<and> (\<exists>t0 \<in> snd ` set topics. messages t0 \<noteq> []
           \<and> t = t0\<lparr>messages := sort_key (\<lambda>x. - md_id x) (messages t0)\<rparr>)"
proof -
  from sorted_topics_loop_member [OF assms [unfolded sorted_topics_def]]
  obtain k t0 where k: "map_of topics k = Some t0" "messages t0 \<noteq> []"
    "t = t0\<lparr>messages := sort_key (\<lambda>x. - md_id x) (messages t0)\<rparr>" by blast
  from k(1) have "(k, t0) \<in> set topics" by (rule map_of_SomeD)
  then have "t0 \<in> snd ` set topics" by force
  moreover have "length (messages t) \<noteq> 0" using k(2,3) by simp
  then have "messages t \<noteq> []" by auto
  ultimately show ?thesis using k sorted_descending [of "messages t0"] by auto
qed

lemma map_insort_key:
  "map f (insort_key f x ys) = insort_key (\<lambda>k. k) (f x) (map f ys)"
  by (induction ys) simp_all

lemma sort_map_fst: "sort (map f xs) = map f (sort_key f xs)"
  by (induction xs) (simp_all add: map_insort_key)

lemma sorted_topics_loop_eq:
  "\<forall>(k, t) \<in> set ys. map_of topics k = Some t \<Longrightarrow>
   sorted_topics_loop (map fst ys) topics
     = map (\<lambda>t. t\<lparr>messages := sort_key (\<lambda>x. - md_id x) (messages t)\<rparr>)
         (filter (\<lambda>t. messages t \<noteq> []) (map snd ys))"
  by (induction ys) auto

lemma sorted_topics_eq:
  assumes "distinct (map fst topics)"
  shows "sorted_topics topics
     = map (\<lambda>t. t\<lparr>messages := sort_key (\<lambda>x. - md_id x) (messages t)\<rparr>)
         (filter (\<lambda>t. messages t \<noteq> []) (map snd (sort_key fst topics)))"
proof -
  have "\<forall>(k, t) \<in> set (sort_key fst topics). map_of topics k = Some t"
    using assms by auto
  from sorted_topics_loop_eq [OF this] show ?thesis
    by (simp add: sorted_topics_def sort_map_fst)
qed


text \<open>
  C6. The item list of the pipeline is the list of the filtered albums, each dated by its
  first member, followed by the filtered singles, sorted by timestamp; its timestamps
  ascend. With a positive batch size the pipeline returns, and the records it adds to the
  topic are, in this order, the records of these items: after the media pass they differ
  from the records of the text pass in their content only, and their dates are the
  formatted timestamps of the items; the other topics keep their records. The final
  rendering of a dictionary of topics gives, in ascending order of topic id, every topic
  that has messages, with its messages sorted by id, descending, and no other topic; it
  is the only place where this order is made.
\<close>

theorem records_chronological_until_render:
  assumes "0 < max_concurrent_downloads cfg"
  shows "(let (grouped, singles) = group_messages all_messages;
              (albums, single_messages, excluded) =
                 filter_grouped_messages lib cfg grouped singles;
              items = sort_key item_timestamp
                 (map (\<lambda>(k, ms). Group (date (hd ms)) ms) albums
                    @ map (\<lambda>m. Single (date m) m) single_messages)
          in sorted_items_of lib cfg all_messages = Some items
           \<and> sorted (map item_timestamp items)
           \<and> (\<exists>topics' mp'.
                 process_messages_streaming lib txts cfg render download all_messages topics
                   topic_id mp = Inr (topics', mp')
               \<and> map without_content (messages_in topics' topic_id)
                   = map without_content
                       (messages_in topics topic_id
                          @ concat (map (item_record lib txts cfg render topic_id) items))
               \<and> map md_date (messages_in topics' topic_id)
                   = map md_date (messages_in topics topic_id)
                       @ map (\<lambda>i. format_message_date lib (item_timestamp i)) items
               \<and> (\<forall>other. other \<noteq> topic_id \<longrightarrow>
                     messages_in topics' other = messages_in topics other)))
     \<and> (distinct (map fst final_topics) \<longrightarrow>
          sorted_topics final_topics
            = map (\<lambda>t. t\<lparr>messages := sort_key (\<lambda>x. - md_id x) (messages t)\<rparr>)
                (filter (\<lambda>t. messages t \<noteq> []) (map snd (sort_key fst final_topics))))
     \<and> (\<forall>t \<in> set (sorted_topics final_topics).
          messages t \<noteq> [] \<and> sorted (rev (map md_id (messages t)))
          \<and> (\<exists>t0 \<in> snd ` set final_topics. messages t0 \<noteq> []
                \<and> t = t0\<lparr>messages := sort_key (\<lambda>x. - md_id x) (messages t0)\<rparr>))"
proof -
  obtain g s where gs: "group_messages all_messages = (g, s)"
    by (cases "group_messages all_messages")
  obtain fg fs n where f: "filter_grouped_messages lib cfg g s = (fg, fs, n)"
    by (cases "filter_grouped_messages lib cfg g s") auto
  let ?items = "sort_key item_timestamp
     (map (\<lambda>(k, ms). Group (date (hd ms)) ms) fg @ map (\<lambda>m. Single (date m) m) fs)"
  let ?recs = "concat (map (item_record lib txts cfg render topic_id) ?items)"
  have ne: "\<forall>(k, v) \<in> set fg. v \<noteq> []" by (rule filter_grouped_messages_nonempty [OF f])
  have items: "sorted_items_of lib cfg all_messages = Some ?items"
    by (rule sorted_items_of_eq [OF gs f])
  then have csi: "create_sorted_items fg fs = Some ?items"
    using gs f by (simp add: sorted_items_of_def)
  have srt: "sorted (map item_timestamp ?items)" by (rule sorted_sort_key)
  have wd: "\<forall>i \<in> set ?items. well_dated i" by (rule well_dated_items [OF ne])
  have "\<exists>topics' mp'.
      process_messages_streaming lib txts cfg render download all_messages topics topic_id mp
        = Inr (topics', mp')
    \<and> map without_content (messages_in topics' topic_id)
        = map without_content (messages_in topics topic_id @ ?recs)
    \<and> (\<forall>other. other \<noteq> topic_id \<longrightarrow> messages_in topics' other = messages_in topics other)"
  proof (cases "sum_list (map (\<lambda>(g, ms). length ms) fg) + length fs = 0")
    case True
    then have fs: "fs = []" by simp
    have "fg = []"
    proof (rule ccontr)
      assume "fg \<noteq> []"
      then obtain k v rest where fg: "fg = (k, v) # rest" by (cases fg) auto
      with True have "v = []" by simp
      with ne fg show False by simp
    qed
    with True gs f fs show ?thesis
      by (simp add: process_messages_streaming_def messages_in_ensure_topic)
  next
    case False
    obtain t1 where t1: "text_pass lib txts cfg render ?items topics topic_id = Some t1"
      "messages_in t1 topic_id = messages_in topics topic_id @ ?recs"
      using text_pass_records by blast
    have other: "\<forall>other. other \<noteq> topic_id \<longrightarrow> messages_in t1 other = messages_in topics other"
      using text_pass_other_topics [OF t1(1)] by blast
    show ?thesis
      using False gs f csi t1 other process_all_media_parallel_eq [OF assms]
      by (auto simp: process_messages_streaming_def apply_results_without_content
          apply_results_other_topics)
  qed
  then obtain topics' mp' where run:
    "process_messages_streaming lib txts cfg render download all_messages topics topic_id mp
        = Inr (topics', mp')"
    "map without_content (messages_in topics' topic_id)
        = map without_content (messages_in topics topic_id @ ?recs)"
    "\<forall>other. other \<noteq> topic_id \<longrightarrow> messages_in topics' other = messages_in topics other"
    by blast
  have "map md_date (messages_in topics' topic_id)
      = map (md_date \<circ> without_content) (messages_in topics' topic_id)"
    by (simp add: without_content_def comp_def)
  also have "\<dots> = map md_date (map without_content (messages_in topics topic_id @ ?recs))"
    using run(2) by (simp only: map_map [symmetric])
  also have "\<dots> = map md_date (messages_in topics topic_id @ ?recs)"
    by (simp add: without_content_def comp_def)
  finally have dates: "map md_date (messages_in topics' topic_id)
      = map md_date (messages_in topics topic_id)
          @ map (\<lambda>i. format_message_date lib (item_timestamp i)) ?items"
    using item_records_dates [OF wd] by simp
  have first: "let (grouped, singles) = group_messages all_messages;
              (albums, single_messages, excluded) =
                 filter_grouped_messages lib cfg grouped singles;
              items = sort_key item_timestamp
                 (map (\<lambda>(k, ms). Group (date (hd ms)) ms) albums
                    @ map (\<lambda>m. Single (date m) m) single_messages)
          in sorted_items_of lib cfg all_messages = Some items
           \<and> sorted (map item_timestamp items)
           \<and> (\<exists>topics' mp'.
                 process_messages_streaming lib txts cfg render download all_messages topics
                   topic_id mp = Inr (topics', mp')
               \<and> map without_content (messages_in topics' topic_id)
                   = map without_content
                       (messages_in topics topic_id
                          @ concat (map (item_record lib txts cfg render topic_id) items))
               \<and> map md_date (messages_in topics' topic_id)
                   = map md_date (messages_in topics topic_id)
                       @ map (\<lambda>i. format_message_date lib (item_timestamp i)) items
               \<and> (\<forall>other. other \<noteq> topic_id \<longrightarrow>
                     messages_in topics' other = messages_in topics other))"
    unfolding gs f Let_def prod.case
    using items srt run dates by blast
  from first sorted_topics_eq [of final_topics] sorted_topics_member [of _ final_topics]
  show ?thesis by blast
qed


theorem records_chronological_until_render_witness:
  "0 < max_concurrent_downloads cfg_plain
   \<and> sorted_items_of example_library cfg_plain
        [album_message 5 20 7 ''b'', plain_message 1 30 ''c'', album_message 4 20 7 ''a'',
         plain_message 2 10 ''d'']
      = Some [Single 10 (plain_message 2 10 ''d''),
              Group 20 [album_message 4 20 7 ''a'', album_message 5 20 7 ''b''],
              Single 30 (plain_message 1 30 ''c'')]
   \<and> (\<exists>topics' mp'.
         process_messages_streaming example_library example_texts cfg_plain render_plain
           download_ok
           [album_message 5 20 7 ''b'', plain_message 1 30 ''c'', album_message 4 20 7 ''a'',
            plain_message 2 10 ''d'']
           [] 1 fresh_processor = Inr (topics', mp')
       \<and> map md_id (messages_in topics' 1) = [2, 4, 1]
       \<and> map grouped_message_ids (messages_in topics' 1) = [[], [4, 5], []])
   \<and> distinct (map fst unsorted_topics)
   \<and> map (\<lambda>t. (td_id t, map md_id (messages t))) (sorted_topics unsorted_topics)
       = [(2, [7]), (3, [4, 2, 1])]"
proof -
  let ?msgs = "[album_message 5 20 7 ''b'', plain_message 1 30 ''c'', album_message 4 20 7 ''a'',
         plain_message 2 10 ''d'']"
  let ?album = "[album_message 4 20 7 ''a'', album_message 5 20 7 ''b'']"
  let ?singles = "[plain_message 1 30 ''c'', plain_message 2 10 ''d'']"
  let ?items = "[Single 10 (plain_message 2 10 ''d''), Group 20 ?album,
      Single 30 (plain_message 1 30 ''c'')]"
  have h: "0 < max_concurrent_downloads cfg_plain" by (simp add: cfg_plain_def)
  have d: "distinct (map fst unsorted_topics)" by (simp add: unsorted_topics_def)
  have gm: "group_messages ?msgs = ([(7, ?album)], ?singles)"
    by (simp add: group_messages_def group_append_def album_message_def plain_message_def)
  have fm: "filter_grouped_messages example_library cfg_plain [(7, ?album)] ?singles
      = ([(7, ?album)], ?singles, 0)"
    by (simp add: filter_grouped_messages_def should_include_raw_message_def cfg_plain_def
        album_message_def plain_message_def)
  have srt: "sort_key item_timestamp
      (map (\<lambda>(k, ms). Group (date (hd ms)) ms) [(7, ?album)]
         @ map (\<lambda>m. Single (date m) m) ?singles) = ?items"
    by (simp add: album_message_def plain_message_def)
  note t = records_chronological_until_render [OF h, where all_messages = ?msgs
      and lib = example_library and txts = example_texts and render = render_plain
      and download = download_ok and topics = "[]" and topic_id = 1 and mp = fresh_processor
      and final_topics = unsorted_topics]
  from t have a: "sorted_items_of example_library cfg_plain ?msgs = Some ?items"
    unfolding gm fm Let_def prod.case srt by blast
  from t obtain topics' mp' where r:
    "process_messages_streaming example_library example_texts cfg_plain render_plain
       download_ok ?msgs [] 1 fresh_processor = Inr (topics', mp')"
    "map without_content (messages_in topics' 1)
       = map without_content
           (messages_in [] 1
              @ concat (map (item_record example_library example_texts cfg_plain render_plain 1)
                  ?items))"
    unfolding gm fm Let_def prod.case srt by blast
  have "map md_id (messages_in topics' 1)
      = map md_id (map without_content (messages_in topics' 1))"
    by (simp add: without_content_def comp_def)
  also have "\<dots> = [2, 4, 1]"
    unfolding r(2)
    by (simp add: without_content_def messages_in_def single_message_data_def
        group_message_data_def Let_def split_beta plain_message_def album_message_def)
  finally have ids: "map md_id (messages_in topics' 1) = [2, 4, 1]" .
  have "map grouped_message_ids (messages_in topics' 1)
      = map grouped_message_ids (map without_content (messages_in topics' 1))"
    by (simp add: without_content_def comp_def)
  also have "\<dots> = [[], [4, 5], []]"
    unfolding r(2)
    by (simp add: without_content_def messages_in_def single_message_data_def
        group_message_data_def Let_def split_beta plain_message_def album_message_def)
  finally have members: "map grouped_message_ids (messages_in topics' 1) = [[], [4, 5], []]" .
  from t d have st: "sorted_topics unsorted_topics
      = map (\<lambda>t. t\<lparr>messages := sort_key (\<lambda>x. - md_id x) (messages t)\<rparr>)
          (filter (\<lambda>t. messages t \<noteq> []) (map snd (sort_key fst unsorted_topics)))"
    by blast
  have rendered: "map (\<lambda>t. (td_id t, map md_id (messages t))) (sorted_topics unsorted_topics)
      = [(2, [7]), (3, [4, 2, 1])]"
    unfolding st
    by (simp add: unsorted_topics_def example_record_def single_message_data_def Let_def
        split_beta plain_message_def)
  from h a r(1) ids members d rendered show ?thesis by simp
qed

section \<open>Theorems about the export run\<close>

lemma streaming_all_filtered:
  "filtered_message_count lib cfg all_messages = 0 \<Longrightarrow>
   process_messages_streaming lib txts cfg render download all_messages topics tid mp
     = Inr (ensure_topic txts tid topics, mp)"
  by (simp add: filtered_message_count_def process_messages_streaming_def split_beta Let_def)

lemma map_fst_dict_set:
  "map fst (dict_set k v d) = (if k \<in> fst ` set d then map fst d else map fst d @ [k])"
  by (induction d) auto

lemma load_topics_loop_invariant:
  "distinct (map fst topics) \<Longrightarrow> \<forall>(k, t) \<in> set topics. messages t = [] \<Longrightarrow>
   distinct (map fst (load_topics_loop lib cfg ts topics))
   \<and> (\<forall>(k, t) \<in> set (load_topics_loop lib cfg ts topics). messages t = [])"
proof (induction ts arbitrary: topics)
  case Nil
  then show ?case by simp
next
  case (Cons a ts)
  obtain i n where a: "a = (i, n)" by (cases a)
  let ?t = "\<lparr>td_id = i, title = n, messages = []\<rparr>"
  have e: "\<forall>(k, t) \<in> set (dict_set i ?t topics). messages t = []"
    using Cons.prems(2) set_dict_set [of i ?t topics] by fastforce
  have d: "distinct (map fst (dict_set i ?t topics))"
    using Cons.prems(1) by (simp add: map_fst_dict_set)
  from Cons.IH [OF d e] Cons.IH [OF Cons.prems] a show ?case by simp
qed

lemma forum_loop_all_filtered:
  "\<forall>k \<in> fst ` set todo.
      \<exists>msgs. iter (Some k) = Inr msgs \<and> filtered_message_count lib cfg msgs = 0 \<Longrightarrow>
   distinct (map fst processed @ map fst todo) \<Longrightarrow>
     process_forum_topics (process_messages_streaming lib txts cfg render download)
       iter todo processed mp
     = Inr (processed
              @ map (\<lambda>(k, t). (k, \<lparr>td_id = k, title = title t, messages = []\<rparr>)) todo, mp)"
proof (induction todo arbitrary: processed)
  case Nil
  then show ?case by simp
next
  case (Cons a todo)
  obtain tid topic where a: "a = (tid, topic)" by (cases a)
  obtain msgs where msgs: "iter (Some tid) = Inr msgs" "filtered_message_count lib cfg msgs = 0"
    using Cons.prems(1) a by auto
  let ?t = "\<lparr>td_id = tid, title = title topic, messages = []\<rparr>"
  have run: "process_messages_streaming lib txts cfg render download msgs [(tid, ?t)] tid mp
      = Inr ([(tid, ?t)], mp)"
    using streaming_all_filtered [OF msgs(2)] by (simp add: ensure_topic_def)
  have fresh: "tid \<notin> fst ` set processed" using Cons.prems(2) a by auto
  then have ds: "dict_set tid ?t processed = processed @ [(tid, ?t)]" by (rule dict_set_fresh)
  have "distinct (map fst (processed @ [(tid, ?t)]) @ map fst todo)"
    using Cons.prems(2) a by auto
  moreover have "\<forall>k \<in> fst ` set todo.
      \<exists>msgs. iter (Some k) = Inr msgs \<and> filtered_message_count lib cfg msgs = 0"
    using Cons.prems(1) by auto
  ultimately show ?case using Cons.IH [of "processed @ [(tid, ?t)]"] a msgs(1) run ds by simp
qed

lemma no_messages_total:
  "\<forall>(k, t) \<in> set topics. messages t = [] \<Longrightarrow>
   sum_list (map (\<lambda>(topic_id, topic). length (messages topic)) topics) = 0"
  by (induction topics) auto


lemma html_render_empty_eq:
  "template w (empty_arguments txts ent) = Some html \<Longrightarrow>
   html_render_empty txts (template w) ent (txt_all_filtered txts) = Inr html"
  by (simp add: html_render_empty_def empty_arguments_def)

text \<open>
  C7. When filtering leaves no message, \<^verbatim>\<open>process_messages_streaming\<close> returns at once:
  the topics are the given ones (with the topic of the run created if it was missing), no
  record is added and the media processor is untouched. For a run in which the steps
  outside the program succeed and every message iterator it opens (the one of the chat,
  or the one of each loaded forum topic) yields only messages that filtering removes,
  \<^verbatim>\<open>export_chat\<close> writes the document the template gives for the empty arguments and
  returns a result with \<open>success\<close> true, no messages, no media and no error; the
  media processor has made no download.
\<close>

theorem empty_export_short_circuit:
  assumes "setup_directories_ok w" and "client_start_ok w" and "resolve_chat w = Inr ent"
    and "forum_topics_response w \<noteq> RequestFails"
    and "\<forall>topic \<in> (case forum_topics_response w of
                       ForumTopics ts \<Rightarrow> Some ` fst ` set (load_topics_loop lib cfg ts [])
                     | _ \<Rightarrow> {None}).
           \<exists>msgs. iter_messages w topic = Inr msgs \<and> filtered_message_count lib cfg msgs = 0"
    and "template w (empty_arguments txts ent) = Some html"
    and "write_text_ok w html" and "copy_required_files_ok w"
  shows "(filtered_message_count lib cfg all_messages = 0 \<longrightarrow>
            process_messages_streaming lib txts cfg render download all_messages topics
              topic_id mp = Inr (ensure_topic txts topic_id topics, mp))
     \<and> export_chat lib txts cfg w
         = (\<lparr>success = True, total_messages = 0,
              total_topics =
                (case forum_topics_response w of
                   ForumTopics ts \<Rightarrow> length (load_topics_loop lib cfg ts [])
                 | _ \<Rightarrow> 1),
              media_count = 0, export_error = None\<rparr>,
            Some (html,
              \<lparr>downloaded_files = {}, global_media_counter = 0, download_calls = []\<rparr>))"
proof -
  let ?mp = "\<lparr>downloaded_files = {}, global_media_counter = 0, download_calls = []\<rparr>"
  have rend: "html_render_empty txts (template w) ent (txt_all_filtered txts) = Inr html"
    by (rule html_render_empty_eq [OF assms(6)])
  have export: "export_chat lib txts cfg w
         = (\<lparr>success = True, total_messages = 0,
              total_topics =
                (case forum_topics_response w of
                   ForumTopics ts \<Rightarrow> length (load_topics_loop lib cfg ts [])
                 | _ \<Rightarrow> 1),
              media_count = 0, export_error = None\<rparr>, Some (html, ?mp))"
  proof (cases "forum_topics_response w")
    case (ForumTopics ts)
    let ?topics = "load_topics_loop lib cfg ts []"
    let ?done = "map (\<lambda>(k, t). (k, \<lparr>td_id = k, title = title t, messages = []\<rparr>)) ?topics"
    have inv: "distinct (map fst ?topics)"
      using load_topics_loop_invariant [of "[]" lib cfg ts] by simp
    have loop: "process_forum_topics
        (process_messages_streaming lib txts cfg
           (render_message (Some (entity_id ent)) True) (download_file w))
        (iter_messages w) ?topics [] ?mp = Inr (?done, ?mp)"
      using forum_loop_all_filtered [of ?topics "iter_messages w" lib cfg "[]" txts
          "render_message (Some (entity_id ent)) True" "download_file w" ?mp]
        assms(5) inv ForumTopics by simp
    have total: "sum_list (map (\<lambda>(topic_id, topic). length (messages topic)) ?done) = 0"
      by (rule no_messages_total) auto
    show ?thesis
      using assms(1,2,3,7,8) ForumTopics loop total rend
      by (simp add: export_chat_def load_forum_topics_def Let_def)
  next
    case RPCError
    obtain msgs where msgs: "iter_messages w None = Inr msgs"
      "filtered_message_count lib cfg msgs = 0" using assms(5) RPCError by auto
    let ?topics = "[(1, \<lparr>td_id = 1, title = ''General'', messages = []\<rparr>)]"
    have run: "process_messages_streaming lib txts cfg
        (render_message (Some (entity_id ent)) False) (download_file w) msgs ?topics 1 ?mp
        = Inr (?topics, ?mp)"
      using streaming_all_filtered [OF msgs(2)] by (simp add: ensure_topic_def)
    show ?thesis
      using assms(1,2,3,7,8) RPCError msgs(1) run rend
      by (simp add: export_chat_def load_forum_topics_def Let_def)
  next
    case RequestFails
    with assms(4) show ?thesis by simp
  qed
  show ?thesis using export streaming_all_filtered by blast
qed


lemmas world_eval =
  quiet_world_def quiet_forum_def empty_arguments_def example_texts_def cfg_bug_def
  should_include_topic_def

theorem empty_export_short_circuit_witness:
  "filtered_message_count example_library cfg_bug [plain_message 1 10 ''hello''] = 0
   \<and> process_messages_streaming example_library example_texts cfg_bug render_plain download_ok
        [plain_message 1 10 ''hello''] [] 1 fresh_processor
      = Inr ([(1, \<lparr>td_id = 1, title = ''Topic 1'', messages = []\<rparr>)], fresh_processor)
   \<and> export_chat example_library example_texts cfg_bug quiet_world
      = (\<lparr>success = True, total_messages = 0, total_topics = 1, media_count = 0,
           export_error = None\<rparr>,
         Some (''Archive - chat (empty)'', fresh_processor))
   \<and> export_chat example_library example_texts cfg_bug quiet_forum
      = (\<lparr>success = True, total_messages = 0, total_topics = 2, media_count = 0,
           export_error = None\<rparr>,
         Some (''Archive - chat (empty)'', fresh_processor))"
proof -
  have c: "filtered_message_count example_library cfg_bug [plain_message 1 10 ''hello''] = 0"
    by (simp add: filtered_message_count_def group_messages_def filter_grouped_messages_def
        filter_eval)
  have t1: "template quiet_world
      (empty_arguments example_texts \<lparr>entity_id = 5, entity_name = ''chat''\<rparr>)
      = Some ''Archive - chat (empty)''"
    by (simp add: world_eval)
  have t2: "template quiet_forum
      (empty_arguments example_texts \<lparr>entity_id = 5, entity_name = ''chat''\<rparr>)
      = Some ''Archive - chat (empty)''"
    by (simp add: world_eval)
  have i1: "\<forall>topic \<in> (case forum_topics_response quiet_world of
                       ForumTopics ts \<Rightarrow>
                         Some ` fst ` set (load_topics_loop example_library cfg_bug ts [])
                     | _ \<Rightarrow> {None}).
           \<exists>msgs. iter_messages quiet_world topic = Inr msgs
             \<and> filtered_message_count example_library cfg_bug msgs = 0"
    using c by (simp add: quiet_world_def)
  have i2: "\<forall>topic \<in> (case forum_topics_response quiet_forum of
                       ForumTopics ts \<Rightarrow>
                         Some ` fst ` set (load_topics_loop example_library cfg_bug ts [])
                     | _ \<Rightarrow> {None}).
           \<exists>msgs. iter_messages quiet_forum topic = Inr msgs
             \<and> filtered_message_count example_library cfg_bug msgs = 0"
    using c by (simp add: quiet_world_def quiet_forum_def)
  note a = empty_export_short_circuit [where w = quiet_world and lib = example_library
      and cfg = cfg_bug and txts = example_texts
      and ent = "\<lparr>entity_id = 5, entity_name = ''chat''\<rparr>"
      and html = "''Archive - chat (empty)''" and all_messages = "[plain_message 1 10 ''hello'']"
      and render = render_plain and download = download_ok and topics = "[]" and topic_id = 1
      and mp = fresh_processor, OF _ _ _ _ i1 t1]
  note b = empty_export_short_circuit [where w = quiet_forum and lib = example_library
      and cfg = cfg_bug and txts = example_texts
      and ent = "\<lparr>entity_id = 5, entity_name = ''chat''\<rparr>"
      and html = "''Archive - chat (empty)''", OF _ _ _ _ i2 t2]
  show ?thesis
    using c a b
    by (simp add: world_eval fresh_processor_def ensure_topic_def str_int_def str_nat.simps)
qed

section \<open>Theorems about the link rewriter\<close>

lemma lower_char_lt: "(lower_char c = CHR ''<'') = (c = CHR ''<'')"
  by (auto simp: lower_char_def split: option.splits if_splits)

lemma match_link_prefix_other: "c \<noteq> CHR ''<'' \<Longrightarrow> match_link_prefix (c # s) = None"
  using lower_char_lt [of c] by (auto simp: match_link_prefix_def lower_char_def)

lemma forum_message_prefixed:
  "match_link_prefix s = None \<Longrightarrow> FORUM_MESSAGE_LINK_PATTERN s = None"
  by (simp add: FORUM_MESSAGE_LINK_PATTERN_def)

lemma forum_topic_prefixed:
  "match_link_prefix s = None \<Longrightarrow> FORUM_TOPIC_LINK_PATTERN s = None"
  by (simp add: FORUM_TOPIC_LINK_PATTERN_def)

lemma regular_message_prefixed:
  "match_link_prefix s = None \<Longrightarrow> REGULAR_MESSAGE_LINK_PATTERN s = None"
  by (simp add: REGULAR_MESSAGE_LINK_PATTERN_def)

lemma sub_Nil: "sub p r [] = []"
  by (simp add: sub.simps)

lemma sub_None: "p (c # s) = None \<Longrightarrow> sub p r (c # s) = c # sub p r s"
  by (simp add: sub.simps [of p r "c # s"])

lemma sub_Some:
  "p (w @ t) = Some (g, t) \<Longrightarrow> w \<noteq> [] \<Longrightarrow> sub p r (w @ t) = r g w @ sub p r t"
  by (simp add: sub.simps [of p r "w @ t"])

lemma sub_chars:
  "(\<And>s. match_link_prefix s = None \<Longrightarrow> p s = None) \<Longrightarrow> CHR ''<'' \<notin> set u \<Longrightarrow>
   sub p r (u @ t) = u @ sub p r t"
  by (induction u) (auto simp: sub_None match_link_prefix_other)

lemma sub_plain:
  assumes "\<And>s. match_link_prefix s = None \<Longrightarrow> p s = None"
  shows "plain_html v \<Longrightarrow> sub p r (v @ t) = v @ sub p r t"
proof (induction v rule: plain_html.induct)
  case plain_Nil
  then show ?case by simp
next
  case (plain_char c s)
  then show ?case using assms by (simp add: sub_None match_link_prefix_other)
next
  case (plain_tag u s)
  have "p (CHR ''<'' # u @ s @ t) = None" using assms plain_tag(2) [of "s @ t"] by simp
  then have "sub p r (CHR ''<'' # u @ s @ t) = CHR ''<'' # sub p r (u @ s @ t)"
    by (rule sub_None)
  also have "sub p r (u @ s @ t) = u @ sub p r (s @ t)"
    using assms plain_tag(1) by (rule sub_chars)
  finally show ?case using plain_tag(4) by simp
qed

lemma sub_cross:
  assumes "\<And>s. match_link_prefix s = None \<Longrightarrow> p s = None"
    and "p (w @ t) = None" and "w \<noteq> []" and "plain_html (tl w)"
  shows "sub p r (w @ t) = w @ sub p r t"
proof -
  obtain c v where w: "w = c # v" using assms(3) by (cases w) auto
  with assms(2) have "sub p r (c # v @ t) = c # sub p r (v @ t)" by (simp add: sub_None)
  with w assms(4) sub_plain [OF assms(1), where v = v and r = r and t = t]
  show ?thesis by simp
qed

lemma plain_html_append: "plain_html a \<Longrightarrow> plain_html b \<Longrightarrow> plain_html (a @ b)"
proof (induction a rule: plain_html.induct)
  case plain_Nil
  then show ?case by simp
next
  case (plain_char c s)
  then show ?case by (simp add: plain_html.plain_char)
next
  case (plain_tag u s)
  from plain_html.plain_tag [OF plain_tag(1,2), of "s @ b"] plain_tag(4,5) show ?case by simp
qed

lemma plain_html_chars: "CHR ''<'' \<notin> set u \<Longrightarrow> plain_html u"
  by (induction u) (auto intro: plain_html.intros)


lemma forum_topic_is_regular: "FORUM_TOPIC_LINK_PATTERN s = REGULAR_MESSAGE_LINK_PATTERN s"
proof -
  have "\<not> no_third_number s4 \<Longrightarrow> query_and_quote s4 = None" for s4
    by (auto simp: no_third_number_def query_and_quote_def split: list.splits)
  then show ?thesis
    by (auto simp: FORUM_TOPIC_LINK_PATTERN_def REGULAR_MESSAGE_LINK_PATTERN_def
        split: option.splits prod.splits)
qed

lemma slash_not_quote: "slash s = Some s' \<Longrightarrow> query_and_quote s = None"
  by (auto simp: slash_def query_and_quote_def split: list.splits if_splits)

lemma forum_message_not_regular:
  "FORUM_MESSAGE_LINK_PATTERN s = Some x \<Longrightarrow> REGULAR_MESSAGE_LINK_PATTERN s = None"
  by (auto simp: FORUM_MESSAGE_LINK_PATTERN_def REGULAR_MESSAGE_LINK_PATTERN_def
      slash_not_quote split: option.splits prod.splits)

lemma regular_not_forum_message:
  "REGULAR_MESSAGE_LINK_PATTERN s = Some x \<Longrightarrow> FORUM_MESSAGE_LINK_PATTERN s = None"
  using forum_message_not_regular [of s] by (cases "FORUM_MESSAGE_LINK_PATTERN s") auto

lemma class_pattern_parts:
  assumes "class_pattern s = Some (v, rest)"
  shows "set v \<subseteq> set s" and "set rest \<subseteq> set s"
proof -
  from assms obtain q where q: "dropWhile (\<lambda>c. c \<noteq> CHR 0x22) (drop 7 s) = q # rest"
    and v: "v = takeWhile (\<lambda>c. c \<noteq> CHR 0x22) (drop 7 s)"
    by (auto simp: class_pattern_def split: if_splits list.splits)
  have "set v \<subseteq> set (drop 7 s)" unfolding v by (auto dest: set_takeWhileD)
  then show "set v \<subseteq> set s" by (auto dest: in_set_dropD)
  have "set (q # rest) \<subseteq> set (drop 7 s)" unfolding q [symmetric] by (auto dest: set_dropWhileD)
  then show "set rest \<subseteq> set s" by (auto dest: in_set_dropD)
qed

lemma class_sub_no_lt:
  assumes "\<And>v whole. CHR ''<'' \<notin> set v \<Longrightarrow> CHR ''<'' \<notin> set (r v whole)"
  shows "CHR ''<'' \<notin> set s \<Longrightarrow> CHR ''<'' \<notin> set (sub class_pattern r s)"
proof (induction s rule: length_induct)
  case (1 s)
  show ?case
  proof (cases s)
    case Nil
    then show ?thesis by (simp add: sub_Nil)
  next
    case (Cons c cs)
    have tl: "CHR ''<'' \<notin> set (sub class_pattern r cs)"
      using 1 Cons by simp
    show ?thesis
    proof (cases "class_pattern s")
      case None
      with Cons 1(2) tl show ?thesis by (simp add: sub.simps [of class_pattern r "c # cs"])
    next
      case (Some a)
      obtain v rest where a: "a = (v, rest)" by (cases a)
      from class_pattern_parts [OF Some [unfolded a]] 1(2)
      have v: "CHR ''<'' \<notin> set v" and rest: "CHR ''<'' \<notin> set rest" by auto
      show ?thesis
      proof (cases "length rest < length s")
        case True
        with 1(1) rest have "CHR ''<'' \<notin> set (sub class_pattern r rest)" by simp
        with Some a True Cons assms [OF v] show ?thesis
          by (simp add: sub.simps [of class_pattern r "c # cs"])
      next
        case False
        with Some a Cons 1(2) tl show ?thesis
          by (simp add: sub.simps [of class_pattern r "c # cs"])
      qed
    qed
  qed
qed

lemma add_internal_link_class_no_lt:
  "CHR ''<'' \<notin> set attrs \<Longrightarrow> CHR ''<'' \<notin> set (add_internal_link_class attrs)"
  by (simp add: add_internal_link_class_def class_sub_no_lt)


lemma internal_href_no_prefix: \<open>match_link_prefix (''<a href="#'' @ t) = None\<close>
  by (simp add: match_link_prefix_def is_space_def lower_char_def)

lemma closing_tag_plain: "plain_html ''</a>''"
proof -
  have "match_link_prefix (CHR ''<'' # ''/a>'' @ t) = None" for t
    by (simp add: match_link_prefix_def lower_char_def)
  from plain_tag [of "''/a>''" "[]", OF _ this plain_Nil] show ?thesis by simp
qed

lemma internal_anchor_plain:
  assumes "CHR ''<'' \<notin> set u" and "plain_html body"
  shows \<open>plain_html (''<a href="#'' @ u @ ''>'' @ body @ ''</a>'')\<close>
proof -
  let ?u = \<open>''a href="#'' @ u @ ''>''\<close>
  have 1: "CHR ''<'' \<notin> set ?u" using assms(1) by simp
  have 2: "match_link_prefix (CHR ''<'' # ?u @ t) = None" for t
    using internal_href_no_prefix [of "u @ ''>'' @ t"] by simp
  have 3: "plain_html (body @ ''</a>'')"
    by (rule plain_html_append [OF assms(2) closing_tag_plain])
  from plain_tag [of ?u "body @ ''</a>''", OF 1 2 3] show ?thesis by simp
qed

lemma replace_forum_message_link_plain:
  assumes "\<not> is_external cur chat" and "CHR ''<'' \<notin> set topic" and "CHR ''<'' \<notin> set msg"
    and "CHR ''<'' \<notin> set attrs" and "plain_html body"
  shows "plain_html (replace_forum_message_link cur (chat, topic, msg, attrs, body) whole)"
proof -
  let ?u = \<open>''msg-'' @ msg @ ''"'' @ add_internal_link_class attrs @ '' data-msg-id="'' @ msg
             @ ''" data-topic-id="'' @ topic @ ''"''\<close>
  have "CHR ''<'' \<notin> set ?u"
    using assms(2,3) add_internal_link_class_no_lt [OF assms(4)] by simp
  from internal_anchor_plain [OF this assms(5)] assms(1) show ?thesis
    by (simp add: replace_forum_message_link_def)
qed

lemma replace_forum_topic_link_plain:
  assumes "\<not> is_external cur chat" and "CHR ''<'' \<notin> set topic"
    and "CHR ''<'' \<notin> set attrs" and "plain_html body"
  shows "plain_html (replace_forum_topic_link cur (chat, topic, attrs, body) whole)"
proof -
  let ?u = \<open>''topic-'' @ topic @ ''"'' @ add_internal_link_class attrs
             @ '' data-topic-id="'' @ topic @ ''"''\<close>
  have "CHR ''<'' \<notin> set ?u"
    using assms(2) add_internal_link_class_no_lt [OF assms(3)] by simp
  from internal_anchor_plain [OF this assms(4)] assms(1) show ?thesis
    by (simp add: replace_forum_topic_link_def)
qed

lemma replace_regular_message_link_plain:
  assumes "\<not> is_external cur chat" and "CHR ''<'' \<notin> set msg"
    and "CHR ''<'' \<notin> set attrs" and "plain_html body"
  shows "plain_html (replace_regular_message_link cur (chat, msg, attrs, body) whole)"
proof -
  let ?u = \<open>''msg-'' @ msg @ ''"'' @ add_internal_link_class attrs
             @ '' data-msg-id="'' @ msg @ ''"''\<close>
  have "CHR ''<'' \<notin> set ?u"
    using assms(2) add_internal_link_class_no_lt [OF assms(3)] by simp
  from internal_anchor_plain [OF this assms(4)] assms(1) show ?thesis
    by (simp add: replace_regular_message_link_def)
qed


lemmas prefixed = forum_message_prefixed forum_topic_prefixed regular_message_prefixed

lemma plain_settles: "plain_html v \<Longrightarrow> settles cur v"
  unfolding settles_def
  by (rule exI [of _ v], rule exI [of _ v], rule exI [of _ v])
     (simp add: sub_plain prefixed)

lemma match_nonempty:
  "(\<And>t. FORUM_MESSAGE_LINK_PATTERN (w @ t) = Some (g, t)) \<Longrightarrow> w \<noteq> []"
  "(\<And>t. REGULAR_MESSAGE_LINK_PATTERN (w @ t) = Some (g', t)) \<Longrightarrow> w \<noteq> []"
proof -
  have n: "match_link_prefix [] = None" by (simp add: match_link_prefix_def)
  show "(\<And>t. FORUM_MESSAGE_LINK_PATTERN (w @ t) = Some (g, t)) \<Longrightarrow> w \<noteq> []"
    using forum_message_prefixed [OF n] by (cases w) (auto dest: meta_spec [of _ "[]"])
  show "(\<And>t. REGULAR_MESSAGE_LINK_PATTERN (w @ t) = Some (g', t)) \<Longrightarrow> w \<noteq> []"
    using regular_message_prefixed [OF n] by (cases w) (auto dest: meta_spec [of _ "[]"])
qed

lemma forum_link_settles:
  assumes m: "\<And>t. FORUM_MESSAGE_LINK_PATTERN (w @ t) = Some ((chat, topic, msg, attrs, body), t)"
    and w: "plain_html (tl w)" and body: "plain_html body"
    and lt: "CHR ''<'' \<notin> set attrs" "CHR ''<'' \<notin> set topic" "CHR ''<'' \<notin> set msg"
  shows "settles cur w"
proof -
  let ?fm = "sub FORUM_MESSAGE_LINK_PATTERN (replace_forum_message_link cur)"
  let ?ft = "sub FORUM_TOPIC_LINK_PATTERN (replace_forum_topic_link cur)"
  let ?rm = "sub REGULAR_MESSAGE_LINK_PATTERN (replace_regular_message_link cur)"
  let ?R = "replace_forum_message_link cur (chat, topic, msg, attrs, body) w"
  have ne: "w \<noteq> []" using m by (rule match_nonempty(1))
  have fm: "?fm (w @ t) = ?R @ ?fm t" for t
    using m [of t] ne by (rule sub_Some)
  have rmn: "REGULAR_MESSAGE_LINK_PATTERN (w @ t) = None" for t
    by (rule forum_message_not_regular [OF m])
  then have ftn: "FORUM_TOPIC_LINK_PATTERN (w @ t) = None" for t
    by (simp add: forum_topic_is_regular)
  have rm: "?rm (w @ t) = w @ ?rm t" for t
    by (rule sub_cross [where p = REGULAR_MESSAGE_LINK_PATTERN, OF regular_message_prefixed rmn ne w])
  have ftw: "?ft (w @ t) = w @ ?ft t" for t
    by (rule sub_cross [where p = FORUM_TOPIC_LINK_PATTERN, OF forum_topic_prefixed ftn ne w])
  show ?thesis
  proof (cases "is_external cur chat")
    case True
    then have R: "?R = w" by (simp add: replace_forum_message_link_def)
    show ?thesis
      unfolding settles_def
      by (rule exI [of _ w], rule exI [of _ w], rule exI [of _ w]) (simp add: fm R ftw rm)
  next
    case False
    have pR: "plain_html ?R"
      by (rule replace_forum_message_link_plain [OF False lt(2,3,1) body])
    show ?thesis
      unfolding settles_def
      by (rule exI [of _ ?R], rule exI [of _ ?R], rule exI [of _ w])
         (simp add: fm rm sub_plain [OF _ pR] prefixed)
  qed
qed

lemma link_settles:
  assumes m: "\<And>t. REGULAR_MESSAGE_LINK_PATTERN (w @ t) = Some ((chat, msg, attrs, body), t)"
    and w: "plain_html (tl w)" and body: "plain_html body"
    and lt: "CHR ''<'' \<notin> set attrs" "CHR ''<'' \<notin> set msg"
  shows "settles cur w"
proof -
  let ?fm = "sub FORUM_MESSAGE_LINK_PATTERN (replace_forum_message_link cur)"
  let ?ft = "sub FORUM_TOPIC_LINK_PATTERN (replace_forum_topic_link cur)"
  let ?rm = "sub REGULAR_MESSAGE_LINK_PATTERN (replace_regular_message_link cur)"
  let ?T = "replace_forum_topic_link cur (chat, msg, attrs, body) w"
  let ?R = "replace_regular_message_link cur (chat, msg, attrs, body) w"
  have ne: "w \<noteq> []" using m by (rule match_nonempty(2))
  have mt: "FORUM_TOPIC_LINK_PATTERN (w @ t) = Some ((chat, msg, attrs, body), t)" for t
    using m by (simp add: forum_topic_is_regular)
  have rm: "?rm (w @ t) = ?R @ ?rm t" for t
    using m [of t] ne by (rule sub_Some)
  have ft: "?ft (w @ t) = ?T @ ?ft t" for t
    using mt [of t] ne by (rule sub_Some)
  have fmn: "FORUM_MESSAGE_LINK_PATTERN (w @ t) = None" for t
    by (rule regular_not_forum_message [OF m])
  have fm: "?fm (w @ t) = w @ ?fm t" for t
    by (rule sub_cross [where p = FORUM_MESSAGE_LINK_PATTERN, OF forum_message_prefixed fmn ne w])
  show ?thesis
  proof (cases "is_external cur chat")
    case True
    then have R: "?R = w" "?T = w"
      by (simp_all add: replace_regular_message_link_def replace_forum_topic_link_def)
    show ?thesis
      unfolding settles_def
      by (rule exI [of _ w], rule exI [of _ w], rule exI [of _ w]) (simp add: fm ft rm R)
  next
    case False
    have pR: "plain_html ?R"
      by (rule replace_regular_message_link_plain [OF False lt(2,1) body])
    have pT: "plain_html ?T"
      by (rule replace_forum_topic_link_plain [OF False lt(2,1) body])
    show ?thesis
      unfolding settles_def
      by (rule exI [of _ w], rule exI [of _ ?T], rule exI [of _ ?R])
         (simp add: fm ft rm sub_plain [OF _ pR] sub_plain [OF _ pT] prefixed)
  qed
qed

lemma settles_step:
  assumes "settles cur seg"
    and "sub FORUM_MESSAGE_LINK_PATTERN (replace_forum_message_link cur)
           (sub FORUM_TOPIC_LINK_PATTERN (replace_forum_topic_link cur)
              (sub FORUM_MESSAGE_LINK_PATTERN (replace_forum_message_link cur) s))
         = sub FORUM_TOPIC_LINK_PATTERN (replace_forum_topic_link cur)
              (sub FORUM_MESSAGE_LINK_PATTERN (replace_forum_message_link cur) s)"
    and "sub FORUM_TOPIC_LINK_PATTERN (replace_forum_topic_link cur)
           (sub FORUM_TOPIC_LINK_PATTERN (replace_forum_topic_link cur)
              (sub FORUM_MESSAGE_LINK_PATTERN (replace_forum_message_link cur) s))
         = sub FORUM_TOPIC_LINK_PATTERN (replace_forum_topic_link cur)
              (sub FORUM_MESSAGE_LINK_PATTERN (replace_forum_message_link cur) s)"
    and "sub REGULAR_MESSAGE_LINK_PATTERN (replace_regular_message_link cur)
           (sub REGULAR_MESSAGE_LINK_PATTERN (replace_regular_message_link cur) s)
         = sub REGULAR_MESSAGE_LINK_PATTERN (replace_regular_message_link cur) s"
  shows "sub FORUM_MESSAGE_LINK_PATTERN (replace_forum_message_link cur)
           (sub FORUM_TOPIC_LINK_PATTERN (replace_forum_topic_link cur)
              (sub FORUM_MESSAGE_LINK_PATTERN (replace_forum_message_link cur) (seg @ s)))
         = sub FORUM_TOPIC_LINK_PATTERN (replace_forum_topic_link cur)
              (sub FORUM_MESSAGE_LINK_PATTERN (replace_forum_message_link cur) (seg @ s))
       \<and> sub FORUM_TOPIC_LINK_PATTERN (replace_forum_topic_link cur)
           (sub FORUM_TOPIC_LINK_PATTERN (replace_forum_topic_link cur)
              (sub FORUM_MESSAGE_LINK_PATTERN (replace_forum_message_link cur) (seg @ s)))
         = sub FORUM_TOPIC_LINK_PATTERN (replace_forum_topic_link cur)
              (sub FORUM_MESSAGE_LINK_PATTERN (replace_forum_message_link cur) (seg @ s))
       \<and> sub REGULAR_MESSAGE_LINK_PATTERN (replace_regular_message_link cur)
           (sub REGULAR_MESSAGE_LINK_PATTERN (replace_regular_message_link cur) (seg @ s))
         = sub REGULAR_MESSAGE_LINK_PATTERN (replace_regular_message_link cur) (seg @ s)"
  using assms by (auto simp: settles_def)

lemma unnested_settled:
  "unnested x \<Longrightarrow>
     sub FORUM_MESSAGE_LINK_PATTERN (replace_forum_message_link cur)
           (sub FORUM_TOPIC_LINK_PATTERN (replace_forum_topic_link cur)
              (sub FORUM_MESSAGE_LINK_PATTERN (replace_forum_message_link cur) x))
         = sub FORUM_TOPIC_LINK_PATTERN (replace_forum_topic_link cur)
              (sub FORUM_MESSAGE_LINK_PATTERN (replace_forum_message_link cur) x)
       \<and> sub FORUM_TOPIC_LINK_PATTERN (replace_forum_topic_link cur)
           (sub FORUM_TOPIC_LINK_PATTERN (replace_forum_topic_link cur)
              (sub FORUM_MESSAGE_LINK_PATTERN (replace_forum_message_link cur) x))
         = sub FORUM_TOPIC_LINK_PATTERN (replace_forum_topic_link cur)
              (sub FORUM_MESSAGE_LINK_PATTERN (replace_forum_message_link cur) x)
       \<and> sub REGULAR_MESSAGE_LINK_PATTERN (replace_regular_message_link cur)
           (sub REGULAR_MESSAGE_LINK_PATTERN (replace_regular_message_link cur) x)
         = sub REGULAR_MESSAGE_LINK_PATTERN (replace_regular_message_link cur) x"
proof (induction x rule: unnested.induct)
  case unnested_Nil
  then show ?case by (simp add: sub_Nil)
next
  case (unnested_char c s)
  have "plain_html [c]" using unnested_char(1) by (auto intro: plain_html.intros)
  from settles_step [OF plain_settles [OF this], where s = s] unnested_char(3) show ?case by simp
next
  case (unnested_tag u s)
  have "plain_html (CHR ''<'' # u @ [])"
    by (rule plain_tag [OF unnested_tag(1,2) plain_Nil])
  then have "settles cur (CHR ''<'' # u)" using plain_settles by simp
  from settles_step [OF this, where s = s] unnested_tag(4) show ?case by simp
next
  case (unnested_forum_link w chat topic msg attrs body s)
  have "settles cur w"
    by (rule forum_link_settles [OF unnested_forum_link(1-6)])
  from settles_step [OF this, where s = s] unnested_forum_link(8) show ?case by simp
next
  case (unnested_link w chat msg attrs body s)
  have "settles cur w"
    by (rule link_settles [OF unnested_link(1-5)])
  from settles_step [OF this, where s = s] unnested_link(7) show ?case by simp
qed

lemma rewritten_no_prefix:
  "\<not> is_external cur chat \<Longrightarrow>
     match_link_prefix
       (replace_forum_message_link cur (chat, topic, msg, attrs, body) whole @ t) = None"
  "\<not> is_external cur chat \<Longrightarrow>
     match_link_prefix (replace_forum_topic_link cur (chat, topic, attrs, body) whole @ t) = None"
  "\<not> is_external cur chat \<Longrightarrow>
     match_link_prefix (replace_regular_message_link cur (chat, msg, attrs, body) whole @ t) = None"
  using internal_href_no_prefix
  by (simp_all add: replace_forum_message_link_def replace_forum_topic_link_def
      replace_regular_message_link_def)

text \<open>
  C4, as amended. On an unnested text the rewriter is idempotent, for every chat id and
  in a forum as in a plain chat: applying it to its own output gives the same text. And
  an anchor that a replacement function has rewritten is matched by no pattern of its
  mode, whatever follows it.
\<close>

theorem transform_telegram_links_idempotent:
  assumes "unnested x"
  shows "transform_telegram_links cur is_forum (transform_telegram_links cur is_forum x)
       = transform_telegram_links cur is_forum x
     \<and> (\<not> is_external cur chat \<longrightarrow>
          FORUM_MESSAGE_LINK_PATTERN
            (replace_forum_message_link cur (chat, topic, msg, attrs, body) whole @ t) = None
        \<and> FORUM_TOPIC_LINK_PATTERN
            (replace_forum_message_link cur (chat, topic, msg, attrs, body) whole @ t) = None
        \<and> FORUM_MESSAGE_LINK_PATTERN
            (replace_forum_topic_link cur (chat, topic, attrs, body) whole @ t) = None
        \<and> FORUM_TOPIC_LINK_PATTERN
            (replace_forum_topic_link cur (chat, topic, attrs, body) whole @ t) = None
        \<and> REGULAR_MESSAGE_LINK_PATTERN
            (replace_regular_message_link cur (chat, msg, attrs, body) whole @ t) = None)"
proof -
  have idem: "transform_telegram_links cur is_forum (transform_telegram_links cur is_forum x)
       = transform_telegram_links cur is_forum x"
    using unnested_settled [OF assms, of cur]
    by (cases is_forum) (simp_all add: transform_telegram_links_def)
  show ?thesis
    using idem rewritten_no_prefix [of cur chat] prefixed by simp
qed

lemma unnested_text: "CHR ''<'' \<notin> set u \<Longrightarrow> unnested s \<Longrightarrow> unnested (u @ s)"
  by (induction u) (auto intro: unnested.intros)

lemma anchor_tail_plain:
  "CHR ''<'' \<notin> set u \<Longrightarrow> plain_html (u @ ''</a>'')"
  by (rule plain_html_append [OF plain_html_chars closing_tag_plain])

lemmas pattern_eval =
  REGULAR_MESSAGE_LINK_PATTERN_def FORUM_MESSAGE_LINK_PATTERN_def match_link_prefix_def
  digits_def slash_def query_and_quote_def attributes_and_text_def is_space_def is_digit_def
  lower_char_def

theorem transform_telegram_links_idempotent_witness:
  \<open>unnested example_html
   \<and> \<not> is_external (Some 1) ''1''
   \<and> transform_telegram_links (Some 1) False
        (transform_telegram_links (Some 1) False example_html)
      = transform_telegram_links (Some 1) False example_html
   \<and> transform_telegram_links (Some 1) True
        (transform_telegram_links (Some 1) True example_html)
      = transform_telegram_links (Some 1) True example_html
   \<and> REGULAR_MESSAGE_LINK_PATTERN
        (replace_regular_message_link (Some 1) (''1'', ''2'', [], ''m'') [] @ ''rest'') = None\<close>
proof -
  let ?w2 = \<open>''<a href="https://t.me/c/1/2">m</a>''\<close>
  let ?w3 = \<open>''<a href="https://t.me/c/9/7/8" class="k">q</a>''\<close>
  have m3: \<open>FORUM_MESSAGE_LINK_PATTERN (?w3 @ t)
      = Some ((''9'', ''7'', ''8'', '' class="k"'', ''q''), t)\<close> for t
    by (simp add: pattern_eval)
  have m2: \<open>REGULAR_MESSAGE_LINK_PATTERN (?w2 @ t) = Some ((''1'', ''2'', [], ''m''), t)\<close> for t
    by (simp add: pattern_eval)
  have p3: "plain_html (tl ?w3)"
    using anchor_tail_plain [of \<open>''a href="https://t.me/c/9/7/8" class="k">q''\<close>] by simp
  have p2: "plain_html (tl ?w2)"
    using anchor_tail_plain [of \<open>''a href="https://t.me/c/1/2">m''\<close>] by simp
  have u3: "unnested (?w3 @ [])"
    by (rule unnested_forum_link [OF m3 p3 _ _ _ _ unnested_Nil])
       (simp_all add: plain_html_chars)
  have u2: "unnested (?w2 @ ?w3)"
    using u3 by (intro unnested_link [OF m2 p2]) (simp_all add: plain_html_chars)
  have tb: "match_link_prefix (CHR ''<'' # ''/b>'' @ t) = None" for t
    by (simp add: match_link_prefix_def lower_char_def)
  have ta: "match_link_prefix (CHR ''<'' # ''b>'' @ t) = None" for t
    by (simp add: match_link_prefix_def lower_char_def)
  have u1: "unnested (CHR ''<'' # ''/b>'' @ '' '' @ ?w2 @ ?w3)"
    by (rule unnested_tag [OF _ tb]) (use u2 in \<open>simp_all add: unnested_char\<close>)
  have u0: "unnested (CHR ''<'' # ''b>'' @ ''it'' @ CHR ''<'' # ''/b>'' @ '' '' @ ?w2 @ ?w3)"
    by (rule unnested_tag [OF _ ta]) (use u1 in \<open>simp_all add: unnested_char\<close>)
  have u: "unnested example_html"
    using unnested_text [OF _ u0, of "''see ''"] by (simp add: example_html_def)
  have e: "\<not> is_external (Some 1) ''1''"
    by (simp add: is_external_def py_int_def digit_value_def)
  from transform_telegram_links_idempotent
         [OF u, of "Some 1" False "''1''" _ "''2''" "[]" "''m''" "[]" "''rest''"]
    transform_telegram_links_idempotent [OF u, of "Some 1" True "''1''"]
    u e
  show ?thesis by simp
qed

text \<open>
  The claim as stated fails when a link stands inside another: the first run rewrites the
  outer anchor and leaves the inner one in its link text, and the second run rewrites
  the inner one.
\<close>

theorem nested_links_rewritten_twice:
  \<open>transform_telegram_links (Some 1) False
      ''<a href="https://t.me/c/1/2"><a href="https://t.me/c/1/4">x</a>''
    = ''<a href="#msg-2" class="internal-link" data-msg-id="2"><a href="https://t.me/c/1/4">x</a>''
   \<and> transform_telegram_links (Some 1) False
      (transform_telegram_links (Some 1) False
         ''<a href="https://t.me/c/1/2"><a href="https://t.me/c/1/4">x</a>'')
    = ''<a href="#msg-2" class="internal-link" data-msg-id="2"><a href="#msg-4" class="internal-link" data-msg-id="4">x</a>''
   \<and> transform_telegram_links (Some 1) False
      (transform_telegram_links (Some 1) False
         ''<a href="https://t.me/c/1/2"><a href="https://t.me/c/1/4">x</a>'')
    \<noteq> transform_telegram_links (Some 1) False
         ''<a href="https://t.me/c/1/2"><a href="https://t.me/c/1/4">x</a>''\<close>
  by code_simp

text \<open>
  C3. A forum message link to the current chat whose attributes hold a class attribute
  that is not written with double quotes gets no \<^verbatim>\<open>internal-link\<close> class: the attributes
  contain \<^verbatim>\<open>class=\<close>, so no new class attribute is added, and the substitution that
  appends to the value of a class attribute finds nothing to replace. The address and
  the data attributes are rewritten; with a class attribute in double quotes the class
  is appended.
\<close>

theorem class_attribute_without_double_quotes:
  \<open>transform_telegram_links (Some 5) True ''<a href="https://t.me/c/5/2/3" class=x>t</a>''
     = ''<a href="#msg-3" class=x data-msg-id="3" data-topic-id="2">t</a>''
   \<and> \<not> py_in ''internal-link''
        (transform_telegram_links (Some 5) True
           ''<a href="https://t.me/c/5/2/3" class=x>t</a>'')
   \<and> transform_telegram_links (Some 5) True
        ''<a href="https://t.me/c/5/2/3" class="x">t</a>''
     = ''<a href="#msg-3" class="x internal-link" data-msg-id="3" data-topic-id="2">t</a>''\<close>
  by code_simp

end
